theory Spec2Isabelle
  imports Main "HOL-Library.Sublist"
begin

section \<open>JavaScript values used by the action\<close>

text \<open>
  The action is TypeScript running on Node. Strings are modelled as \<open>string\<close>,
  a value that may be \<open>undefined\<close> as an \<open>option\<close> (\<open>None\<close> is \<open>undefined\<close>).
  The emoji that prefix the console and error messages of the source are left out of
  the texts; nothing in the control flow reads them.
\<close>

text \<open>\<open>a || b\<close> on a possibly undefined string: the empty string is falsy too.\<close>

definition or_string :: "string option \<Rightarrow> string \<Rightarrow> string" where
  "or_string a b = (case a of None \<Rightarrow> b | Some s \<Rightarrow> if s = [] then b else s)"

text \<open>Truthiness of a possibly undefined boolean (\<open>!x\<close> is its negation).\<close>

definition truthy :: "bool option \<Rightarrow> bool" where
  "truthy a = (case a of None \<Rightarrow> False | Some b \<Rightarrow> b)"

text \<open>An interpolation \<open>${x}\<close> in a template literal prints \<open>undefined\<close> by name.\<close>

definition interpolate :: "string option \<Rightarrow> string" where
  "interpolate a = (case a of None \<Rightarrow> ''undefined'' | Some s \<Rightarrow> s)"

text \<open>\<open>s.split(sep)\<close> for a one-character separator: never an empty array.\<close>

fun split :: "char \<Rightarrow> string \<Rightarrow> string list" where
  "split sep [] = [[]]"
| "split sep (c # cs) =
     (if c = sep then [] # split sep cs
      else (case split sep cs of
              [] \<Rightarrow> [[c]]
            | piece # pieces \<Rightarrow> (c # piece) # pieces))"

text \<open>
  \<open>s.replace(pat, rep)\<close> with a string pattern: only the first occurrence of
  \<open>pat\<close> is replaced (the replacement used by the source is the empty string, so the
  \<open>$\<close> patterns of replacement strings play no part).
\<close>

fun replace :: "string \<Rightarrow> string \<Rightarrow> string \<Rightarrow> string" where
  "replace pat rep [] = (if pat = [] then rep else [])"
| "replace pat rep (c # cs) =
     (if prefix pat (c # cs) then rep @ drop (length pat) (c # cs)
      else c # replace pat rep cs)"

text \<open>
  The destructuring \<open>const [owner, repo] = xs\<close>: the first two elements, each
  \<open>undefined\<close> when the array is too short.
\<close>

definition element :: "'a list \<Rightarrow> nat \<Rightarrow> 'a option" where
  "element xs i = (if i < length xs then Some (xs ! i) else None)"

definition destructure2 :: "'a list \<Rightarrow> 'a option \<times> 'a option" where
  "destructure2 xs = (element xs 0, element xs 1)"

text \<open>
  A thrown value. The source reads its \<open>status\<close> (set by the HTTP client on a
  failed request, absent on an ordinary \<open>Error\<close>) and its \<open>message\<close>.
\<close>

datatype error = Error (status: "int option") (message: string)

section \<open>Data model (github.ts, lines 7-21; Config of util.ts)\<close>

text \<open>
  \<open>Config\<close> is declared in util.ts, which is not among the sources; the record has
  the fields that github.ts and main.ts read, optional where the source defaults them
  with \<open>||\<close> or passes them on as \<open>T | undefined\<close>.
\<close>

record Config =
  github_token :: string
  github_ref :: string
  github_repository :: string
  input_name :: "string option"
  input_tag_name :: "string option"
  input_files :: "string list option"
  input_draft :: "bool option"
  input_prerelease :: "bool option"
  input_fail_on_unmatched_files :: "bool option"
  input_draft_until_assets_uploaded :: "bool option"

record Release =
  id' :: int
  upload_url :: string
  html_url :: string
  tag_name :: string
  body :: string
  target_commitish :: string

record ReleaseAsset =
  name :: string
  mime :: string
  size' :: nat
  file' :: "nat list"

section \<open>Requests\<close>

text \<open>
  The parameter objects of the \<open>Releaser\<close> interface (github.ts, lines 23-63).
  A property that is left out of an object literal, or whose value is \<open>undefined\<close>,
  is \<open>None\<close>. \<open>owner\<close> and \<open>repo\<close> come from a destructuring and may be
  \<open>undefined\<close> at run time although the interface declares them \<open>string\<close>.
  A field whose name another record already has carries the request's name in front.
\<close>

record repo_params =
  owner :: "string option"
  repo :: "string option"

record tag_params = repo_params +
  tag :: string

record find_params = tag_params +
  draft :: bool

record create_params = repo_params +
  create_tag_name :: string
  create_name :: string
  create_body :: "string option"
  create_draft :: "bool option"
  create_prerelease :: "bool option"

record update_params = repo_params +
  release_id :: int
  update_tag_name :: "string option"
  update_target_commitish :: "string option"
  update_name :: "string option"
  update_body :: "string option"
  update_draft :: "bool option"
  update_prerelease :: "bool option"

record list_params = repo_params +
  per_page :: nat

record upload_params =
  url :: string
  content_length :: nat
  content_type :: string
  upload_name :: string
  upload_file :: "nat list"

section \<open>The world outside the action\<close>

text \<open>
  Everything the action does is a call on something outside it: the console, the file
  system, util.ts, the \<open>mime\<close> and \<open>path\<close> packages, and the GitHub client.
  The state of all of that is one value \<open>'w\<close>, the world; a call takes the world and
  returns it changed. A single request is taken to settle: it gives \<open>Inr\<close> its
  response or \<open>Inl\<close> the value its promise rejects with. The loops of the action
  itself may go on for ever, and a function that contains one returns \<open>None\<close> then.
\<close>

datatype console_msg =
    LookingForDraft string
  | FoundDraft string
  | LookingForNonDraft string
  | Uploading string
  | CreatingRelease string
  | ReleaseFailedRetrying "int option"
  | UnexpectedError string error
  | PatternNoMatch string
  | MarkingDraft
  | NoValidFiles "string list"
  | PublishingDraft
  | ReleaseReady string

text \<open>
  The functions the two files import and do not define: the console, \<open>fs\<close>,
  \<open>mime\<close>, \<open>path\<close>, and util.ts (\<open>releaseBody\<close>, \<open>isTag\<close>,
  \<open>unmatchedPatterns\<close>, \<open>paths\<close>; the last two expand globs and so read the
  file system, which is part of the world). They are parameters of the model.
\<close>

record 'w Platform =
  console_log :: "console_msg \<Rightarrow> 'w \<Rightarrow> 'w"
  console_warn :: "console_msg \<Rightarrow> 'w \<Rightarrow> 'w"
  getType :: "string \<Rightarrow> string option"
  basename :: "string \<Rightarrow> string"
  lstatSync_size :: "string \<Rightarrow> 'w \<Rightarrow> error + nat"
  readFileSync :: "string \<Rightarrow> 'w \<Rightarrow> error + nat list"
  releaseBody :: "Config \<Rightarrow> string option"
  isTag :: "string \<Rightarrow> bool"
  unmatchedPatterns :: "string list \<Rightarrow> 'w \<Rightarrow> string list"
  paths :: "string list \<Rightarrow> 'w \<Rightarrow> string list"

text \<open>
  The client of \<open>@actions/github\<close>. \<open>paginate_next ps k\<close> is the \<open>k\<close>-th call of
  \<open>next()\<close> on the iterator that \<open>paginate.iterator\<close> makes for the list request
  \<open>ps\<close>: it requests one page, and answers \<open>None\<close> when the listing is over.
\<close>

record 'w GitHub =
  repos_getReleaseByTag :: "tag_params \<Rightarrow> 'w \<Rightarrow> (error + Release) \<times> 'w"
  repos_createRelease :: "create_params \<Rightarrow> 'w \<Rightarrow> (error + Release) \<times> 'w"
  repos_updateRelease :: "update_params \<Rightarrow> 'w \<Rightarrow> (error + Release) \<times> 'w"
  repos_uploadReleaseAsset :: "upload_params \<Rightarrow> 'w \<Rightarrow> (error + unit) \<times> 'w"
  paginate_next :: "list_params \<Rightarrow> nat \<Rightarrow> 'w \<Rightarrow> (error + Release list option) \<times> 'w"

text \<open>
  The interface \<open>Releaser\<close>. \<open>findRelease\<close> may run a loop, so it may never
  answer: \<open>None\<close>. \<open>allReleases\<close> is the iterator, as \<open>paginate_next\<close> above.
\<close>

record 'w Releaser =
  getReleaseByTag :: "tag_params \<Rightarrow> 'w \<Rightarrow> (error + Release) \<times> 'w"
  findRelease :: "find_params \<Rightarrow> 'w \<Rightarrow> ((error + Release) \<times> 'w) option"
  createRelease :: "create_params \<Rightarrow> 'w \<Rightarrow> (error + Release) \<times> 'w"
  updateRelease :: "update_params \<Rightarrow> 'w \<Rightarrow> (error + Release) \<times> 'w"
  allReleases :: "repo_params \<Rightarrow> nat \<Rightarrow> 'w \<Rightarrow> (error + Release list option) \<times> 'w"

section \<open>GitHubReleaser (github.ts, lines 65-138)\<close>

text \<open>
  \<open>allReleases\<close> spreads the parameters it is given over \<open>per_page: 100\<close>. Its
  declared parameter type has the owner and the repository; the object that
  \<open>findRelease\<close> hands on carries \<open>tag\<close> and \<open>draft\<close> as well, which at run
  time travel with the list request. The model follows the declared type.
\<close>

definition GitHubReleaser_allReleases ::
  "'w GitHub \<Rightarrow> repo_params \<Rightarrow> nat \<Rightarrow> 'w \<Rightarrow> (error + Release list option) \<times> 'w" where
  "GitHubReleaser_allReleases gh params =
     paginate_next gh \<lparr>owner = owner params, repo = repo params, per_page = 100\<rparr>"

text \<open>
  The \<open>for await\<close> loop of \<open>findRelease\<close> (lines 89-97), from the \<open>k\<close>-th page on.
  \<open>Inr (Some r)\<close> is the \<open>return\<close> inside the loop, \<open>Inr None\<close> its normal end,
  \<open>Inl e\<close> a page request that failed. The loop runs as long as the iterator
  gives pages.
\<close>

partial_function (option) scan_releases ::
  "'w Platform \<Rightarrow> 'w GitHub \<Rightarrow> find_params \<Rightarrow> nat \<Rightarrow> 'w \<Rightarrow> ((error + Release option) \<times> 'w) option" where
  "scan_releases E gh params k w =
     (case GitHubReleaser_allReleases gh (repo_params.truncate params) k w of
        (Inl e, w1) \<Rightarrow> Some (Inl e, w1)
      | (Inr None, w1) \<Rightarrow> Some (Inr None, w1)
      | (Inr (Some response_data), w1) \<Rightarrow>
          (case find (\<lambda>release. tag_name release = tag params) response_data of
             Some release \<Rightarrow> Some (Inr (Some release), console_log E (FoundDraft (tag_name release)) w1)
           | None \<Rightarrow> scan_releases E gh params (Suc k) w1))"

declare scan_releases.simps [code]

text \<open>
  \<open>findRelease\<close> hands its own parameters to \<open>getReleaseByTag\<close> (line 100), whose
  declared parameter type has the owner, the repository and the tag; the object
  carries \<open>draft\<close> as well. The model follows the declared type, which is what
  \<open>tag_params.truncate\<close> keeps.
\<close>

definition GitHubReleaser_getReleaseByTag ::
  "'w GitHub \<Rightarrow> tag_params \<Rightarrow> 'w \<Rightarrow> (error + Release) \<times> 'w" where
  "GitHubReleaser_getReleaseByTag gh params = repos_getReleaseByTag gh params"

definition GitHubReleaser_findRelease ::
  "'w Platform \<Rightarrow> 'w GitHub \<Rightarrow> find_params \<Rightarrow> 'w \<Rightarrow> ((error + Release) \<times> 'w) option" where
  "GitHubReleaser_findRelease E gh params w =
     (let lookup = (\<lambda>w. Some (GitHubReleaser_getReleaseByTag gh (tag_params.truncate params)
                                 (console_log E (LookingForNonDraft (tag params)) w)))
      in if draft params then
           (case scan_releases E gh params 0 (console_log E (LookingForDraft (tag params)) w) of
              None \<Rightarrow> None
            | Some (Inl e, w1) \<Rightarrow> Some (Inl e, w1)
            | Some (Inr (Some release), w1) \<Rightarrow> Some (Inr release, w1)
            | Some (Inr None, w1) \<Rightarrow> lookup w1)
         else lookup w)"

definition GitHubReleaser_createRelease ::
  "'w GitHub \<Rightarrow> create_params \<Rightarrow> 'w \<Rightarrow> (error + Release) \<times> 'w" where
  "GitHubReleaser_createRelease gh params = repos_createRelease gh params"

definition GitHubReleaser_updateRelease ::
  "'w GitHub \<Rightarrow> update_params \<Rightarrow> 'w \<Rightarrow> (error + Release) \<times> 'w" where
  "GitHubReleaser_updateRelease gh params = repos_updateRelease gh params"

definition GitHubReleaser :: "'w Platform \<Rightarrow> 'w GitHub \<Rightarrow> 'w Releaser" where
  "GitHubReleaser E gh =
     \<lparr>getReleaseByTag = GitHubReleaser_getReleaseByTag gh,
      findRelease = GitHubReleaser_findRelease E gh,
      createRelease = GitHubReleaser_createRelease gh,
      updateRelease = GitHubReleaser_updateRelease gh,
      allReleases = GitHubReleaser_allReleases gh\<rparr>"

section \<open>Assets (github.ts, lines 140-169)\<close>

definition mimeOrDefault :: "'w Platform \<Rightarrow> string \<Rightarrow> string" where
  "mimeOrDefault E path = or_string (getType E path) ''application/octet-stream''"

text \<open>\<open>lstatSync\<close> and \<open>readFileSync\<close> throw when the file cannot be read.\<close>

definition asset :: "'w Platform \<Rightarrow> string \<Rightarrow> 'w \<Rightarrow> error + ReleaseAsset" where
  "asset E path w =
     (case lstatSync_size E path w of
        Inl e \<Rightarrow> Inl e
      | Inr sz \<Rightarrow>
          (case readFileSync E path w of
             Inl e \<Rightarrow> Inl e
           | Inr content \<Rightarrow>
               Inr \<lparr>name = basename E path, mime = mimeOrDefault E path,
                    size' = sz, file' = content\<rparr>))"

definition upload :: "'w Platform \<Rightarrow> 'w GitHub \<Rightarrow> string \<Rightarrow> string \<Rightarrow> 'w \<Rightarrow> (error + unit) \<times> 'w" where
  "upload E gh upload_to path w =
     (case asset E path w of
        Inl e \<Rightarrow> (Inl e, w)
      | Inr a \<Rightarrow>
          repos_uploadReleaseAsset gh
            \<lparr>url = upload_to, content_length = size' a, content_type = mime a,
             upload_name = name a, upload_file = file' a\<rparr>
            (console_log E (Uploading (name a)) w))"

section \<open>release (github.ts, lines 171-239)\<close>

definition owner_repo :: "Config \<Rightarrow> string option \<times> string option" where
  "owner_repo config = destructure2 (split CHR ''/'' (github_repository config))"

definition resolved_tag :: "Config \<Rightarrow> string" where
  "resolved_tag config =
     or_string (input_tag_name config) (replace ''refs/tags/'' [] (github_ref config))"

text \<open>The object literals of lines 179-184, 186-204 and 208-223.\<close>

definition find_request :: "Config \<Rightarrow> find_params" where
  "find_request config =
     (let (owner, repo) = owner_repo config;
          tag = resolved_tag config
      in \<lparr>owner = owner, repo = repo, tag = tag,
          draft = (case input_draft config of None \<Rightarrow> False | Some d \<Rightarrow> d)\<rparr>)"

definition update_request :: "'w Platform \<Rightarrow> Config \<Rightarrow> Release \<Rightarrow> update_params" where
  "update_request E config existingRelease =
     (let (owner, repo) = owner_repo config;
          tag = resolved_tag config
      in \<lparr>owner = owner, repo = repo,
          release_id = id' existingRelease,
          update_tag_name = Some tag,
          update_target_commitish = Some (target_commitish existingRelease),
          update_name = Some (or_string (input_name config) tag),
          update_body =
            Some (body existingRelease @ [CHR 0x0A] @ interpolate (releaseBody E config)),
          update_draft = input_draft config,
          update_prerelease = input_prerelease config\<rparr>)"

definition create_request :: "'w Platform \<Rightarrow> Config \<Rightarrow> create_params" where
  "create_request E config =
     (let (owner, repo) = owner_repo config;
          tag = resolved_tag config
      in \<lparr>owner = owner, repo = repo,
          create_tag_name = tag,
          create_name = or_string (input_name config) tag,
          create_body = releaseBody E config,
          create_draft = input_draft config,
          create_prerelease = input_prerelease config\<rparr>)"

text \<open>The \<open>try\<close> block, lines 179-205: what it returns or throws.\<close>

definition release_try ::
  "'w Platform \<Rightarrow> 'w Releaser \<Rightarrow> Config \<Rightarrow> 'w \<Rightarrow> ((error + Release) \<times> 'w) option" where
  "release_try E releaser config w =
     (case findRelease releaser (find_request config) w of
        None \<Rightarrow> None
      | Some (Inl e, w1) \<Rightarrow> Some (Inl e, w1)
      | Some (Inr existingRelease, w1) \<Rightarrow>
          Some (updateRelease releaser (update_request E config existingRelease) w1))"

text \<open>
  The whole function. The recursive call of line 230 is the only way on from a failed
  \<open>createRelease\<close>, and nothing bounds the recursion: \<open>None\<close> is a call that
  never returns.
\<close>

partial_function (option) release ::
  "'w Platform \<Rightarrow> 'w Releaser \<Rightarrow> Config \<Rightarrow> 'w \<Rightarrow> ((error + Release) \<times> 'w) option" where
  "release E releaser config w =
     (case release_try E releaser config w of
        None \<Rightarrow> None
      | Some (Inr rel, w1) \<Rightarrow> Some (Inr rel, w1)
      | Some (Inl error, w1) \<Rightarrow>
          (if status error = Some 404 then
             (case createRelease releaser (create_request E config)
                     (console_log E (CreatingRelease (resolved_tag config)) w1) of
                (Inr rel, w2) \<Rightarrow> Some (Inr rel, w2)
              | (Inl error', w2) \<Rightarrow>
                  release E releaser config
                    (console_log E (ReleaseFailedRetrying (status error')) w2))
           else Some (Inl error,
                      console_log E (UnexpectedError (github_ref config) error) w1)))"

declare release.simps [code]

section \<open>publishRelease (github.ts, lines 241-256)\<close>

definition publish_request :: "Config \<Rightarrow> int \<Rightarrow> update_params" where
  "publish_request config releaseId =
     (let (owner, repo) = owner_repo config;
          tag = resolved_tag config
      in \<lparr>owner = owner, repo = repo, release_id = releaseId,
          update_tag_name = None, update_target_commitish = None,
          update_name = None, update_body = None,
          update_draft = Some False, update_prerelease = None\<rparr>)"

definition publishRelease ::
  "Config \<Rightarrow> int \<Rightarrow> 'w Releaser \<Rightarrow> 'w \<Rightarrow> (error + Release) \<times> 'w" where
  "publishRelease config releaseId releaser w =
     updateRelease releaser (publish_request config releaseId) w"

section \<open>run (main.ts)\<close>

text \<open>
  \<open>config\<close> is an object, and \<open>let initialConfig = config\<close> (line 46) copies the
  reference to it, not the object. Objects therefore live in a store, variables hold
  addresses, and a field is read or written through the address.
\<close>

type_synonym ref = nat
type_synonym store = "ref \<rightharpoonup> Config"

definition deref :: "store \<Rightarrow> ref \<Rightarrow> Config" where
  "deref h r = the (h r)"

definition set_input_draft :: "store \<Rightarrow> ref \<Rightarrow> bool option \<Rightarrow> store" where
  "set_input_draft h r v = h(r \<mapsto> (deref h r)\<lparr>input_draft := v\<rparr>)"

text \<open>How \<open>run\<close> ends: \<open>setFailed\<close>, or the two calls of \<open>setOutput\<close>.\<close>

datatype report = SetFailed string | SetOutput string string

definition truthy_string :: "string option \<Rightarrow> bool" where
  "truthy_string a = (case a of None \<Rightarrow> False | Some s \<Rightarrow> s \<noteq> [])"

text \<open>
  Lines 58-60: \<open>forEach\<close> calls the \<open>async\<close> callback for each path and drops the
  promise it returns. Each call runs \<open>upload\<close> up to the request it sends; nothing
  waits for the answer, and a rejection reaches no handler. The model puts every
  upload request where it is started, in the order of \<open>files\<close>.
\<close>

fun upload_each :: "'w Platform \<Rightarrow> 'w GitHub \<Rightarrow> string \<Rightarrow> string list \<Rightarrow> 'w \<Rightarrow> 'w" where
  "upload_each E gh upload_to [] w = w"
| "upload_each E gh upload_to (path # files) w =
     upload_each E gh upload_to files (snd (upload E gh upload_to path w))"

text \<open>
  Lines 10-21, the checks made before the client exists: the error thrown, if any, and
  the world after the warnings.
\<close>

definition run_checks :: "'w Platform \<Rightarrow> Config \<Rightarrow> 'w \<Rightarrow> error option \<times> 'w" where
  "run_checks E config w =
     (if \<not> truthy_string (input_tag_name config) \<and> \<not> isTag E (github_ref config)
      then (Some (Error None ''GitHub Releases requires a tag''), w)
      else (case input_files config of
              None \<Rightarrow> (None, w)
            | Some input_files' \<Rightarrow>
                (let patterns = unmatchedPatterns E input_files' w;
                     w1 = fold (\<lambda>pattern. console_warn E (PatternNoMatch pattern)) patterns w
                 in if length patterns > 0 \<and> truthy (input_fail_on_unmatched_files config)
                    then (Some (Error None ''There were unmatched files''), w1)
                    else (None, w1))))"

text \<open>
  Lines 46-69, with \<open>config\<close> an address into the store \<open>h\<close>. Making the client
  (lines 22-45) sends nothing; \<open>gh\<close> is the client made.
\<close>

definition run_release ::
  "'w Platform \<Rightarrow> 'w GitHub \<Rightarrow> store \<Rightarrow> ref \<Rightarrow> 'w \<Rightarrow> ((error + Release) \<times> 'w) option" where
  "run_release E gh h config w =
     (let initialConfig = config;
          (h1, w1) =
            (if truthy (input_draft_until_assets_uploaded (deref h config))
             then (set_input_draft h initialConfig (Some True), console_log E MarkingDraft w)
             else (h, w));
          releaser = GitHubReleaser E gh
      in case release E releaser (deref h1 initialConfig) w1 of
           None \<Rightarrow> None
         | Some (Inl e, w2) \<Rightarrow> Some (Inl e, w2)
         | Some (Inr rel, w2) \<Rightarrow>
             (let w3 =
                    (case input_files (deref h1 config) of
                       None \<Rightarrow> w2
                     | Some input_files' \<Rightarrow>
                         (let files = paths E input_files' w2;
                              w' = (if length files = 0
                                    then console_warn E (NoValidFiles input_files') w2 else w2)
                          in upload_each E gh (upload_url rel) files w'))
              in if truthy (input_draft_until_assets_uploaded (deref h1 config))
                    \<and> \<not> truthy (input_draft (deref h1 config))
                 then (case publishRelease (deref h1 config) (id' rel) releaser
                              (console_log E PublishingDraft w3) of
                         (Inl e, w4) \<Rightarrow> Some (Inl e, w4)
                       | (Inr published, w4) \<Rightarrow> Some (Inr rel, w4))
                 else Some (Inr rel, w3)))"

text \<open>
  The whole of \<open>run\<close>, for \<open>parsed\<close> the object that \<open>parseConfig(env)\<close> returns.
\<close>

definition run :: "'w Platform \<Rightarrow> 'w GitHub \<Rightarrow> Config \<Rightarrow> 'w \<Rightarrow> (report \<times> 'w) option" where
  "run E gh parsed w =
     (let config = (0::ref);
          h = [config \<mapsto> parsed]
      in case run_checks E (deref h config) w of
           (Some e, w1) \<Rightarrow> Some (SetFailed (message e), w1)
         | (None, w1) \<Rightarrow>
             (case run_release E gh h config w1 of
                None \<Rightarrow> None
              | Some (Inl e, w2) \<Rightarrow> Some (SetFailed (message e), w2)
              | Some (Inr rel, w2) \<Rightarrow>
                  Some (SetOutput (html_url rel) (upload_url rel),
                        console_log E (ReleaseReady (html_url rel)) w2)))"

section \<open>The release service\<close>

text \<open>
  The service behind the client is not code of this repository. Where a property
  depends on what the service does with a request, the service is the one that
  section 4.1 of the specification describes, written out here: a list of releases,
  newest first, and one function for each request.
\<close>

record hosted = Release +
  hosted_owner :: "string option"
  hosted_repo :: "string option"
  hosted_name :: string
  hosted_draft :: bool
  hosted_prerelease :: bool

type_synonym service = "hosted list"

definition in_repo :: "'a repo_params_scheme \<Rightarrow> hosted \<Rightarrow> bool" where
  "in_repo p s = (hosted_owner s = owner p \<and> hosted_repo s = repo p)"

definition response :: "hosted \<Rightarrow> Release" where
  "response s =
     \<lparr>id' = id' s, upload_url = upload_url s, html_url = html_url s,
      tag_name = tag_name s, body = body s, target_commitish = target_commitish s\<rparr>"

text \<open>
  Modelled from the spec: the service's side of \<open>updateRelease\<close>, which the
  specification gives as "partial-field update; unspecified fields are left unchanged
  server-side".
\<close>

definition partial_update :: "update_params \<Rightarrow> hosted \<Rightarrow> hosted" where
  "partial_update p s =
     s\<lparr>tag_name := (case update_tag_name p of None \<Rightarrow> tag_name s | Some v \<Rightarrow> v),
       target_commitish :=
         (case update_target_commitish p of None \<Rightarrow> target_commitish s | Some v \<Rightarrow> v),
       body := (case update_body p of None \<Rightarrow> body s | Some v \<Rightarrow> v),
       hosted_name := (case update_name p of None \<Rightarrow> hosted_name s | Some v \<Rightarrow> v),
       hosted_draft := (case update_draft p of None \<Rightarrow> hosted_draft s | Some v \<Rightarrow> v),
       hosted_prerelease :=
         (case update_prerelease p of None \<Rightarrow> hosted_prerelease s | Some v \<Rightarrow> v)\<rparr>"

section \<open>A pass of release\<close>

text \<open>
  The body of \<open>release\<close> up to its recursive call: a pass returns (a release, or
  the error rethrown), or ends in a failed \<open>createRelease\<close> and goes round again in
  the world it has reached, or hangs in \<open>findRelease\<close>. \<open>passes n\<close> runs at
  most \<open>n\<close> passes, one after the other.
\<close>

datatype 'w pass = Returns "(error + Release) \<times> 'w" | Retries 'w | Hangs

definition release_pass ::
  "'w Platform \<Rightarrow> 'w Releaser \<Rightarrow> Config \<Rightarrow> 'w \<Rightarrow> 'w pass" where
  "release_pass E releaser config w =
     (case release_try E releaser config w of
        None \<Rightarrow> Hangs
      | Some (Inr rel, w1) \<Rightarrow> Returns (Inr rel, w1)
      | Some (Inl error, w1) \<Rightarrow>
          (if status error = Some 404 then
             (case createRelease releaser (create_request E config)
                     (console_log E (CreatingRelease (resolved_tag config)) w1) of
                (Inr rel, w2) \<Rightarrow> Returns (Inr rel, w2)
              | (Inl error', w2) \<Rightarrow>
                  Retries (console_log E (ReleaseFailedRetrying (status error')) w2))
           else Returns (Inl error,
                         console_log E (UnexpectedError (github_ref config) error) w1)))"

fun passes :: "nat \<Rightarrow> 'w Platform \<Rightarrow> 'w Releaser \<Rightarrow> Config \<Rightarrow> 'w \<Rightarrow> 'w pass" where
  "passes 0 E releaser config w = Retries w"
| "passes (Suc n) E releaser config w =
     (case release_pass E releaser config w of
        Retries w' \<Rightarrow> passes n E releaser config w'
      | outcome \<Rightarrow> outcome)"

section \<open>release, one request at a time\<close>

text \<open>
  \<open>release\<close> with a \<open>GitHubReleaser\<close>, cut at its requests, so that several runs
  can take turns on one service. A run is at a stage: at the start of a pass, before
  the request for page \<open>k\<close> of the listing, before the lookup by tag, before the
  update of the release it has found, before the create, or finished. A step takes
  the run to its next stage, and sends one request at most.
\<close>

datatype stage =
    Starting
  | Scanning nat
  | LookingUp
  | Updating Release
  | Creating
  | Finished "error + Release"

text \<open>The \<open>catch\<close> of line 206, for an error of the \<open>try\<close> block.\<close>

definition caught :: "'w Platform \<Rightarrow> Config \<Rightarrow> error \<Rightarrow> 'w \<Rightarrow> stage \<times> 'w" where
  "caught E config error w =
     (if status error = Some 404 then (Creating, w)
      else (Finished (Inl error), console_log E (UnexpectedError (github_ref config) error) w))"

definition release_step :: "'w Platform \<Rightarrow> 'w GitHub \<Rightarrow> Config \<Rightarrow> stage \<times> 'w \<Rightarrow> stage \<times> 'w" where
  "release_step E gh config sw =
     (case sw of
        (Starting, w) \<Rightarrow>
          (if draft (find_request config)
           then (Scanning 0, console_log E (LookingForDraft (tag (find_request config))) w)
           else (LookingUp, w))
      | (Scanning k, w) \<Rightarrow>
          (case GitHubReleaser_allReleases gh (repo_params.truncate (find_request config)) k w of
             (Inl e, w1) \<Rightarrow> caught E config e w1
           | (Inr None, w1) \<Rightarrow> (LookingUp, w1)
           | (Inr (Some response_data), w1) \<Rightarrow>
               (case find (\<lambda>r. tag_name r = tag (find_request config)) response_data of
                  Some found \<Rightarrow> (Updating found, console_log E (FoundDraft (tag_name found)) w1)
                | None \<Rightarrow> (Scanning (Suc k), w1)))
      | (LookingUp, w) \<Rightarrow>
          (case GitHubReleaser_getReleaseByTag gh (tag_params.truncate (find_request config))
                  (console_log E (LookingForNonDraft (tag (find_request config))) w) of
             (Inl e, w1) \<Rightarrow> caught E config e w1
           | (Inr existingRelease, w1) \<Rightarrow> (Updating existingRelease, w1))
      | (Updating existingRelease, w) \<Rightarrow>
          (case GitHubReleaser_updateRelease gh (update_request E config existingRelease) w of
             (Inl e, w1) \<Rightarrow> caught E config e w1
           | (Inr rel, w1) \<Rightarrow> (Finished (Inr rel), w1))
      | (Creating, w) \<Rightarrow>
          (case GitHubReleaser_createRelease gh (create_request E config)
                  (console_log E (CreatingRelease (resolved_tag config)) w) of
             (Inr rel, w1) \<Rightarrow> (Finished (Inr rel), w1)
           | (Inl error', w1) \<Rightarrow>
               (Starting, console_log E (ReleaseFailedRetrying (status error')) w1))
      | (Finished outcome, w) \<Rightarrow> (Finished outcome, w))"

text \<open>What \<open>release\<close> returns when it is resumed at a stage.\<close>

definition resume_creating ::
  "'w Platform \<Rightarrow> 'w GitHub \<Rightarrow> Config \<Rightarrow> 'w \<Rightarrow> ((error + Release) \<times> 'w) option" where
  "resume_creating E gh config w =
     (case GitHubReleaser_createRelease gh (create_request E config)
             (console_log E (CreatingRelease (resolved_tag config)) w) of
        (Inr rel, w1) \<Rightarrow> Some (Inr rel, w1)
      | (Inl error', w1) \<Rightarrow>
          release E (GitHubReleaser E gh) config
            (console_log E (ReleaseFailedRetrying (status error')) w1))"

definition resume_caught ::
  "'w Platform \<Rightarrow> 'w GitHub \<Rightarrow> Config \<Rightarrow> error \<Rightarrow> 'w \<Rightarrow> ((error + Release) \<times> 'w) option" where
  "resume_caught E gh config error w =
     (if status error = Some 404 then resume_creating E gh config w
      else Some (Inl error, console_log E (UnexpectedError (github_ref config) error) w))"

definition resume_updating ::
  "'w Platform \<Rightarrow> 'w GitHub \<Rightarrow> Config \<Rightarrow> Release \<Rightarrow> 'w \<Rightarrow> ((error + Release) \<times> 'w) option" where
  "resume_updating E gh config existingRelease w =
     (case GitHubReleaser_updateRelease gh (update_request E config existingRelease) w of
        (Inl e, w1) \<Rightarrow> resume_caught E gh config e w1
      | (Inr rel, w1) \<Rightarrow> Some (Inr rel, w1))"

definition resume_looking_up ::
  "'w Platform \<Rightarrow> 'w GitHub \<Rightarrow> Config \<Rightarrow> 'w \<Rightarrow> ((error + Release) \<times> 'w) option" where
  "resume_looking_up E gh config w =
     (case GitHubReleaser_getReleaseByTag gh (tag_params.truncate (find_request config))
             (console_log E (LookingForNonDraft (tag (find_request config))) w) of
        (Inl e, w1) \<Rightarrow> resume_caught E gh config e w1
      | (Inr existingRelease, w1) \<Rightarrow> resume_updating E gh config existingRelease w1)"

definition resume_scanning ::
  "'w Platform \<Rightarrow> 'w GitHub \<Rightarrow> Config \<Rightarrow> nat \<Rightarrow> 'w \<Rightarrow> ((error + Release) \<times> 'w) option" where
  "resume_scanning E gh config k w =
     (case scan_releases E gh (find_request config) k w of
        None \<Rightarrow> None
      | Some (Inl e, w1) \<Rightarrow> resume_caught E gh config e w1
      | Some (Inr (Some found), w1) \<Rightarrow> resume_updating E gh config found w1
      | Some (Inr None, w1) \<Rightarrow> resume_looking_up E gh config w1)"

definition resume ::
  "'w Platform \<Rightarrow> 'w GitHub \<Rightarrow> Config \<Rightarrow> stage \<times> 'w \<Rightarrow> ((error + Release) \<times> 'w) option" where
  "resume E gh config sw =
     (case sw of
        (Starting, w) \<Rightarrow> release E (GitHubReleaser E gh) config w
      | (Scanning k, w) \<Rightarrow> resume_scanning E gh config k w
      | (LookingUp, w) \<Rightarrow> resume_looking_up E gh config w
      | (Updating existingRelease, w) \<Rightarrow> resume_updating E gh config existingRelease w
      | (Creating, w) \<Rightarrow> resume_creating E gh config w
      | (Finished outcome, w) \<Rightarrow> Some (outcome, w))"

text \<open>Some number of steps leads from one state of a run to another.\<close>

definition reaches ::
  "'w Platform \<Rightarrow> 'w GitHub \<Rightarrow> Config \<Rightarrow> stage \<times> 'w \<Rightarrow> stage \<times> 'w \<Rightarrow> bool" where
  "reaches E gh config a b = (\<exists>n. (release_step E gh config ^^ n) a = b)"

text \<open>
  Where a run stands when the loop over the pages, the whole \<open>findRelease\<close>, the
  \<open>try\<close> block, or a pass has given its result.
\<close>

definition scan_target :: "'w Platform \<Rightarrow> Config \<Rightarrow> (error + Release option) \<times> 'w \<Rightarrow> stage \<times> 'w" where
  "scan_target E config y =
     (case y of
        (Inl e, w1) \<Rightarrow> caught E config e w1
      | (Inr (Some r), w1) \<Rightarrow> (Updating r, w1)
      | (Inr None, w1) \<Rightarrow> (LookingUp, w1))"

definition find_target :: "'w Platform \<Rightarrow> Config \<Rightarrow> (error + Release) \<times> 'w \<Rightarrow> stage \<times> 'w" where
  "find_target E config y =
     (case y of
        (Inl e, w1) \<Rightarrow> caught E config e w1
      | (Inr existingRelease, w1) \<Rightarrow> (Updating existingRelease, w1))"

definition try_target :: "'w Platform \<Rightarrow> Config \<Rightarrow> (error + Release) \<times> 'w \<Rightarrow> stage \<times> 'w" where
  "try_target E config y =
     (case y of
        (Inl e, w1) \<Rightarrow> caught E config e w1
      | (Inr rel, w1) \<Rightarrow> (Finished (Inr rel), w1))"

definition pass_target :: "'w pass \<Rightarrow> (stage \<times> 'w) option" where
  "pass_target p =
     (case p of
        Returns (outcome, w1) \<Rightarrow> Some (Finished outcome, w1)
      | Retries w1 \<Rightarrow> Some (Starting, w1)
      | Hangs \<Rightarrow> None)"

section \<open>The release service, request by request\<close>

text \<open>
  Modelled from the spec: the errors NotFound and Conflict of the service's requests.
  The code reads the status of the first (\<open>error.status === 404\<close>) and never that
  of the second.
\<close>

definition not_found :: error where
  "not_found = Error (Some 404) ''Not Found''"

definition conflict :: error where
  "conflict = Error (Some 409) ''Conflict''"

text \<open>A release is for an owner, a repository and a tag.\<close>

definition key :: "hosted \<Rightarrow> string option \<times> string option \<times> string" where
  "key h = (hosted_owner h, hosted_repo h, tag_name h)"

text \<open>
  Modelled from the spec: the identifier that the service gives a new release, which
  the specification leaves open; here one more than every identifier in use.
\<close>

definition next_id :: "service \<Rightarrow> int" where
  "next_id srv = fold max (map id' srv) 0 + 1"

text \<open>
  Modelled from the spec: \<open>getReleaseByTag\<close> of the service, which "fails with
  NotFound if no non-draft release matches; draft releases are NOT returned by this
  lookup".
\<close>

definition service_getReleaseByTag :: "tag_params \<Rightarrow> service \<Rightarrow> (error + Release) \<times> service" where
  "service_getReleaseByTag p srv =
     (case find (\<lambda>h. in_repo p h \<and> tag_name h = tag p \<and> \<not> hosted_draft h) srv of
        None \<Rightarrow> (Inl not_found, srv)
      | Some h \<Rightarrow> (Inr (response h), srv))"

text \<open>
  Modelled from the spec: the listing behind \<open>allReleases\<close>, "a lazy,
  restartable-per-call sequence of fixed-size pages", drafts included, each page
  read from the service when it is requested; the first page is always given.
\<close>

definition service_listReleases ::
  "list_params \<Rightarrow> nat \<Rightarrow> service \<Rightarrow> (error + Release list option) \<times> service" where
  "service_listReleases p k srv =
     (let listed = map response (filter (in_repo p) srv)
      in (Inr (if k = 0 \<or> k * per_page p < length listed
               then Some (take (per_page p) (drop (k * per_page p) listed))
               else None),
          srv))"

text \<open>
  Modelled from the spec: \<open>createRelease\<close> of the service, which "fails with
  Conflict when a release for that tag already exists" and otherwise adds the
  release, newest first. The URLs of the new release are left empty.
\<close>

definition service_createRelease :: "create_params \<Rightarrow> service \<Rightarrow> (error + Release) \<times> service" where
  "service_createRelease p srv =
     (if list_ex (\<lambda>h. in_repo p h \<and> tag_name h = create_tag_name p) srv
      then (Inl conflict, srv)
      else (let h = \<lparr>id' = next_id srv, upload_url = [], html_url = [],
                      tag_name = create_tag_name p,
                      body = (case create_body p of None \<Rightarrow> [] | Some b \<Rightarrow> b),
                      target_commitish = [],
                      hosted_owner = owner p, hosted_repo = repo p,
                      hosted_name = create_name p,
                      hosted_draft = truthy (create_draft p),
                      hosted_prerelease = truthy (create_prerelease p)\<rparr>
            in (Inr (response h), h # srv)))"

text \<open>
  Modelled from the spec: \<open>updateRelease\<close> of the service, the partial update
  above applied to the release of the given identifier, NotFound when there is none.
\<close>

definition service_updateRelease :: "update_params \<Rightarrow> service \<Rightarrow> (error + Release) \<times> service" where
  "service_updateRelease p srv =
     (case find (\<lambda>h. in_repo p h \<and> id' h = release_id p) srv of
        None \<Rightarrow> (Inl not_found, srv)
      | Some h \<Rightarrow>
          (Inr (response (partial_update p h)),
           map (\<lambda>h. if in_repo p h \<and> id' h = release_id p then partial_update p h else h) srv))"

text \<open>
  Modelled from the spec: the client whose requests go to this service. Assets are
  not part of the model.
\<close>

definition github_service :: "service GitHub" where
  "github_service =
     \<lparr>repos_getReleaseByTag = service_getReleaseByTag,
      repos_createRelease = service_createRelease,
      repos_updateRelease = service_updateRelease,
      repos_uploadReleaseAsset = (\<lambda>p srv. (Inr (), srv)),
      paginate_next = service_listReleases\<rparr>"

text \<open>
  Runs that share a service do not share a console: their platform prints nowhere.
\<close>

definition muted :: "'w Platform \<Rightarrow> 'w Platform" where
  "muted E = E\<lparr>console_log := (\<lambda>m w. w), console_warn := (\<lambda>m w. w)\<rparr>"

text \<open>
  Several runs of \<open>release\<close> on one service: the stage of each run and the
  service. A schedule names, step by step, the run that moves; each request is one
  atomic step of the service.
\<close>

type_synonym system = "stage list \<times> service"

definition system_step :: "service Platform \<Rightarrow> Config list \<Rightarrow> nat \<Rightarrow> system \<Rightarrow> system" where
  "system_step E configs i sys =
     (case sys of
        (stages, srv) \<Rightarrow>
          (if i < length stages \<and> i < length configs
           then (case release_step (muted E) github_service (configs ! i) (stages ! i, srv) of
                   (s, srv') \<Rightarrow> (stages[i := s], srv'))
           else sys))"

definition run_schedule :: "service Platform \<Rightarrow> Config list \<Rightarrow> nat list \<Rightarrow> system \<Rightarrow> system" where
  "run_schedule E configs schedule sys = fold (system_step E configs) schedule sys"

text \<open>At most one release for each owner, repository and tag.\<close>

definition one_per_tag :: "service \<Rightarrow> bool" where
  "one_per_tag srv = distinct (map key srv)"

text \<open>
  What the runs rely on: a run that is about to update a release holds the
  identifier of a release that exists and that is the release of its own owner,
  repository and tag. A step of any run either keeps the identifier and key of every
  release, or adds one release with a new identifier and a new key.
\<close>

definition identity :: "hosted \<Rightarrow> int \<times> string option \<times> string option \<times> string" where
  "identity h = (id' h, key h)"

definition stage_ok :: "Config \<Rightarrow> stage \<Rightarrow> service \<Rightarrow> bool" where
  "stage_ok config s srv =
     (case s of
        Updating r \<Rightarrow>
          list_ex (\<lambda>h. id' h = id' r) srv
          \<and> list_all (\<lambda>h. id' h \<noteq> id' r
                          \<or> key h = (fst (owner_repo config), snd (owner_repo config),
                                     resolved_tag config)) srv
      | _ \<Rightarrow> True)"

definition coherent :: "Config list \<Rightarrow> system \<Rightarrow> bool" where
  "coherent configs sys =
     (case sys of
        (stages, srv) \<Rightarrow>
          one_per_tag srv \<and> distinct (map id' srv) \<and> length stages = length configs
          \<and> list_all (\<lambda>i. stage_ok (configs ! i) (stages ! i) srv) [0..<length stages])"

definition evolves :: "service \<Rightarrow> service \<Rightarrow> bool" where
  "evolves srv srv' =
     (map identity srv' = map identity srv
      \<or> (\<exists>h. srv' = h # srv \<and> id' h = next_id srv \<and> key h \<notin> set (map key srv)))"

section \<open>Test doubles\<close>

text \<open>
  The MIME table of the doubles. It looks a path up the way \<open>getType\<close> of the
  \<open>mime\<close> package (version 2) does, which is outside the repository:
  \<open>last'\<close> is the path without what the pattern \<open>^.*[/\\]\<close> matches (all up
  to the last slash or backslash), in lower case, and \<open>ext\<close> is \<open>last'\<close> without
  what \<open>^.*\.\<close> matches (all up to the last dot). The dot of such a pattern
  matches no line terminator, so the match stays inside the first line of the
  string. A type is given only when \<open>ext\<close> is shorter than \<open>last'\<close> by more than
  the dot, or the path is a bare file name. Characters are code units below 256,
  and the types are an excerpt of the table.
\<close>

definition line_terminator :: "char \<Rightarrow> bool" where
  "line_terminator c = (c = CHR 0x0A \<or> c = CHR 0x0D)"

definition after_last :: "(char \<Rightarrow> bool) \<Rightarrow> string \<Rightarrow> string" where
  "after_last P s =
     (let line = takeWhile (\<lambda>c. \<not> line_terminator c) s in
      if list_ex P line
      then drop (length line - length (takeWhile (\<lambda>c. \<not> P c) (rev line))) s
      else s)"

definition lower_char :: "char \<Rightarrow> char" where
  "lower_char c =
     (let n = of_char c :: nat in
      if (65 \<le> n \<and> n \<le> 90) \<or> (192 \<le> n \<and> n \<le> 222 \<and> n \<noteq> 215)
      then char_of (n + 32) else c)"

definition toLowerCase :: "string \<Rightarrow> string" where
  "toLowerCase s = map lower_char s"

definition mime_types :: "string \<Rightarrow> string option" where
  "mime_types ext =
     (if ext = ''zip'' then Some ''application/zip''
      else if ext = ''txt'' then Some ''text/plain''
      else if ext = ''json'' then Some ''application/json''
      else None)"

definition mime_getType :: "string \<Rightarrow> string option" where
  "mime_getType path =
     (let last' = toLowerCase (after_last (\<lambda>c. c = CHR ''/'' \<or> c = CHR 0x5C) path);
          ext = toLowerCase (after_last (\<lambda>c. c = CHR ''.'') last');
          hasPath = (length last' < length path);
          hasDot = (int (length ext) < int (length last') - 1)
      in if hasDot \<or> \<not> hasPath then mime_types ext else None)"

text \<open>
  A platform that prints nothing, whose body text is fixed, and whose file system
  is empty: every pattern is unmatched and no path is found.
\<close>

definition quiet :: "'w Platform" where
  "quiet =
     \<lparr>console_log = (\<lambda>m w. w), console_warn = (\<lambda>m w. w),
      getType = mime_getType,
      basename = (\<lambda>path. last (split CHR ''/'' path)),
      lstatSync_size = (\<lambda>path w. Inl (Error None ''ENOENT'')),
      readFileSync = (\<lambda>path w. Inl (Error None ''ENOENT'')),
      releaseBody = (\<lambda>config. Some ''notes''),
      isTag = prefix ''refs/tags/'',
      unmatchedPatterns = (\<lambda>patterns w. patterns),
      paths = (\<lambda>patterns w. [])\<rparr>"

text \<open>
  A \<open>Releaser\<close> that answers from a script, one answer per call in the order of
  the calls, and whose world is the list of the calls made so far.
\<close>

datatype call =
    FindRelease find_params
  | CreateRelease create_params
  | UpdateRelease update_params
  | GetReleaseByTag tag_params
  | AllReleases repo_params nat

definition answer :: "(error + Release) list \<Rightarrow> call list \<Rightarrow> error + Release" where
  "answer script calls =
     (if length calls < length script then script ! length calls
      else Inl (Error None ''no answer left''))"

definition scripted :: "(error + Release) list \<Rightarrow> call list Releaser" where
  "scripted script =
     \<lparr>getReleaseByTag = (\<lambda>p calls. (answer script calls, calls @ [GetReleaseByTag p])),
      findRelease = (\<lambda>p calls. Some (answer script calls, calls @ [FindRelease p])),
      createRelease = (\<lambda>p calls. (answer script calls, calls @ [CreateRelease p])),
      updateRelease = (\<lambda>p calls. (answer script calls, calls @ [UpdateRelease p])),
      allReleases = (\<lambda>p k calls. (Inr None, calls @ [AllReleases p k]))\<rparr>"

definition server_error :: error where
  "server_error = Error (Some 500) ''Internal Server Error''"

definition v1_config :: Config where
  "v1_config =
     \<lparr>github_token = ''t'', github_ref = ''refs/tags/v1'', github_repository = ''o/r'',
      input_name = None, input_tag_name = None, input_files = None,
      input_draft = None, input_prerelease = None,
      input_fail_on_unmatched_files = None,
      input_draft_until_assets_uploaded = None\<rparr>"

definition v1_release :: Release where
  "v1_release =
     \<lparr>id' = 7, upload_url = ''up/7'', html_url = ''html/7'', tag_name = ''v1'',
      body = ''old'', target_commitish = ''main''\<rparr>"

text \<open>
  The requests of \<open>release\<close> for \<open>v1_config\<close> on a quiet platform, the update
  being that of \<open>v1_release\<close>, and the release as updated.
\<close>

definition v1_find :: find_params where
  "v1_find = \<lparr>owner = Some ''o'', repo = Some ''r'', tag = ''v1'', draft = False\<rparr>"

definition v1_create :: create_params where
  "v1_create =
     \<lparr>owner = Some ''o'', repo = Some ''r'', create_tag_name = ''v1'', create_name = ''v1'',
      create_body = Some ''notes'', create_draft = None, create_prerelease = None\<rparr>"

definition v1_update :: update_params where
  "v1_update =
     \<lparr>owner = Some ''o'', repo = Some ''r'', release_id = 7,
      update_tag_name = Some ''v1'', update_target_commitish = Some ''main'',
      update_name = Some ''v1'', update_body = Some (''old'' @ [CHR 0x0A] @ ''notes''),
      update_draft = None, update_prerelease = None\<rparr>"

definition v1_updated :: Release where
  "v1_updated = v1_release\<lparr>body := ''old'' @ [CHR 0x0A] @ ''notes''\<rparr>"

text \<open>
  Two releasers that find nothing: one whose \<open>createRelease\<close> fails for ever, one
  whose \<open>createRelease\<close> fails a given number of times and then succeeds. Their
  world counts the calls of \<open>createRelease\<close>.
\<close>

definition stubborn :: "nat Releaser" where
  "stubborn =
     \<lparr>getReleaseByTag = (\<lambda>p n. (Inl not_found, n)),
      findRelease = (\<lambda>p n. Some (Inl not_found, n)),
      createRelease = (\<lambda>p n. (Inl (Error (Some 422) ''already_exists''), Suc n)),
      updateRelease = (\<lambda>p n. (Inl not_found, n)),
      allReleases = (\<lambda>p k n. (Inr None, n))\<rparr>"

definition flaky :: "nat \<Rightarrow> nat Releaser" where
  "flaky failures =
     \<lparr>getReleaseByTag = (\<lambda>p n. (Inl not_found, n)),
      findRelease = (\<lambda>p n. Some (Inl not_found, n)),
      createRelease = (\<lambda>p n. (if n < failures then Inl (Error (Some 422) ''already_exists'')
                                else Inr v1_release, Suc n)),
      updateRelease = (\<lambda>p n. (Inl not_found, n)),
      allReleases = (\<lambda>p k n. (Inr None, n))\<rparr>"

definition doubled_config :: Config where
  "doubled_config =
     v1_config\<lparr>github_ref := ''refs/tags/refs/tags/v1'',
               input_tag_name := Some [], input_name := Some []\<rparr>"

text \<open>
  A client that answers every request with a fixed response and keeps a log of what
  was sent; its listing has the given pages, one request each, and is over after the
  last. Platforms that write what they print into the same log; \<open>stocked\<close> has a
  file system in which every pattern matches a file of three bytes.
\<close>

datatype request =
    GetReleaseByTagRequest tag_params
  | CreateReleaseRequest create_params
  | UpdateReleaseRequest update_params
  | UploadReleaseAssetRequest upload_params
  | ListReleasesRequest list_params nat

datatype event = Printed console_msg | Warned console_msg | Sent request

definition canned ::
  "Release list list \<Rightarrow> error + Release \<Rightarrow> error + Release \<Rightarrow> error + Release \<Rightarrow> event list GitHub" where
  "canned pages got created updated =
     \<lparr>repos_getReleaseByTag = (\<lambda>p log. (got, log @ [Sent (GetReleaseByTagRequest p)])),
      repos_createRelease = (\<lambda>p log. (created, log @ [Sent (CreateReleaseRequest p)])),
      repos_updateRelease = (\<lambda>p log. (updated, log @ [Sent (UpdateReleaseRequest p)])),
      repos_uploadReleaseAsset = (\<lambda>p log. (Inr (), log @ [Sent (UploadReleaseAssetRequest p)])),
      paginate_next = (\<lambda>p k log. if k < length pages
                                then (Inr (Some (pages ! k)), log @ [Sent (ListReleasesRequest p k)])
                                else (Inr None, log))\<rparr>"

definition logging :: "event list Platform" where
  "logging =
     quiet\<lparr>console_log := (\<lambda>m log. log @ [Printed m]),
           console_warn := (\<lambda>m log. log @ [Warned m])\<rparr>"

definition stocked :: "event list Platform" where
  "stocked =
     logging\<lparr>lstatSync_size := (\<lambda>path log. Inr 3),
             readFileSync := (\<lambda>path log. Inr [80, 75, 3]),
             unmatchedPatterns := (\<lambda>patterns log. []),
             paths := (\<lambda>patterns log. patterns)\<rparr>"

definition v0_release :: Release where
  "v0_release =
     \<lparr>id' = 3, upload_url = ''up/3'', html_url = ''html/3'', tag_name = ''v0'',
      body = ''older'', target_commitish = ''main''\<rparr>"

definition v1_draft_params :: find_params where
  "v1_draft_params = \<lparr>owner = Some ''o'', repo = Some ''r'', tag = ''v1'', draft = True\<rparr>"

definition v1_list :: list_params where
  "v1_list = \<lparr>owner = Some ''o'', repo = Some ''r'', per_page = 100\<rparr>"

definition three_pages :: "event list GitHub" where
  "three_pages =
     canned [[v0_release], [v1_release, v1_release\<lparr>id' := 8\<rparr>], [v1_release\<lparr>id' := 9\<rparr>]]
       (Inl not_found) (Inl not_found) (Inl not_found)"



definition staged_config :: Config where
  "staged_config =
     v1_config\<lparr>input_files := Some [''app.zip''], input_draft := Some False,
               input_draft_until_assets_uploaded := Some True\<rparr>"

definition fresh_repository :: "event list GitHub" where
  "fresh_repository = canned [[]] (Inl not_found) (Inr v1_release) (Inr v1_release)"

section \<open>One pass through release\<close>

lemma quiet_simps:
  "console_log quiet m w = w" "console_warn quiet m w = w"
  "releaseBody quiet config = Some ''notes''"
  by (simp_all add: quiet_def)

lemma scripted_simps:
  "findRelease (scripted s) fp calls = Some (answer s calls, calls @ [FindRelease fp])"
  "createRelease (scripted s) cp calls = (answer s calls, calls @ [CreateRelease cp])"
  "updateRelease (scripted s) up calls = (answer s calls, calls @ [UpdateRelease up])"
  by (simp_all add: scripted_def)

lemma v1_config_requests:
  "find_request v1_config = v1_find"
  "create_request quiet v1_config = v1_create"
  "update_request quiet v1_config v1_release = v1_update"
  "resolved_tag v1_config = ''v1''"
  by (simp_all add: find_request_def create_request_def update_request_def owner_repo_def
                    resolved_tag_def destructure2_def element_def or_string_def Let_def
                    interpolate_def v1_config_def v1_release_def quiet_def
                    v1_find_def v1_create_def v1_update_def)

lemma release_found:
  "release_try E R config w = Some (Inr rel, w1) \<Longrightarrow> release E R config w = Some (Inr rel, w1)"
  by (subst release.simps) simp

lemma release_fatal:
  "release_try E R config w = Some (Inl e, w1) \<Longrightarrow> status e \<noteq> Some 404 \<Longrightarrow>
   release E R config w = Some (Inl e, console_log E (UnexpectedError (github_ref config) e) w1)"
  by (subst release.simps) simp

lemma release_created:
  "release_try E R config w = Some (Inl e, w1) \<Longrightarrow> status e = Some 404 \<Longrightarrow>
   createRelease R (create_request E config) (console_log E (CreatingRelease (resolved_tag config)) w1) = (Inr rel, w2) \<Longrightarrow>
   release E R config w = Some (Inr rel, w2)"
  by (subst release.simps) simp

lemma release_retry:
  "release_try E R config w = Some (Inl e, w1) \<Longrightarrow> status e = Some 404 \<Longrightarrow>
   createRelease R (create_request E config) (console_log E (CreatingRelease (resolved_tag config)) w1) = (Inl e', w2) \<Longrightarrow>
   release E R config w = release E R config (console_log E (ReleaseFailedRetrying (status e')) w2)"
  by (subst release.simps) simp

lemma release_hangs:
  "release_try E R config w = None \<Longrightarrow> release E R config w = None"
  by (subst release.simps) simp

section \<open>The found branch\<close>

text \<open>
  C2. Whenever \<open>findRelease\<close> answers with an existing release, \<open>release\<close> calls
  \<open>updateRelease\<close> with the request \<open>update_request\<close>: its body is the existing
  body, a newline, and the body of the configuration as the template literal prints
  it (appended, never replacing); its tag is the resolved tag, its target commit that
  of the existing release, and name, draft and prerelease come from the
  configuration (the name falling back to the tag). What the \<open>try\<close> block gives is
  what this call gives, and when the call succeeds its release is what \<open>release\<close>
  returns.
\<close>

theorem release_appends_body:
  assumes "findRelease R (find_request config) w = Some (Inr existing, w1)"
  shows "release_try E R config w = Some (updateRelease R (update_request E config existing) w1)
    \<and> release_id (update_request E config existing) = id' existing
    \<and> update_body (update_request E config existing)
        = Some (body existing @ [CHR 0x0A] @ interpolate (releaseBody E config))
    \<and> update_tag_name (update_request E config existing) = Some (resolved_tag config)
    \<and> update_target_commitish (update_request E config existing) = Some (target_commitish existing)
    \<and> update_name (update_request E config existing)
        = Some (or_string (input_name config) (resolved_tag config))
    \<and> update_draft (update_request E config existing) = input_draft config
    \<and> update_prerelease (update_request E config existing) = input_prerelease config
    \<and> (\<forall>updated w2.
          updateRelease R (update_request E config existing) w1 = (Inr updated, w2) \<longrightarrow>
          release E R config w = Some (Inr updated, w2))"
proof -
  have tried: "release_try E R config w = Some (updateRelease R (update_request E config existing) w1)"
    using assms by (simp add: release_try_def)
  have fields: "release_id (update_request E config existing) = id' existing
    \<and> update_body (update_request E config existing)
        = Some (body existing @ [CHR 0x0A] @ interpolate (releaseBody E config))
    \<and> update_tag_name (update_request E config existing) = Some (resolved_tag config)
    \<and> update_target_commitish (update_request E config existing) = Some (target_commitish existing)
    \<and> update_name (update_request E config existing)
        = Some (or_string (input_name config) (resolved_tag config))
    \<and> update_draft (update_request E config existing) = input_draft config
    \<and> update_prerelease (update_request E config existing) = input_prerelease config"
    by (simp add: update_request_def Let_def split: prod.split)
  have "release E R config w = Some (Inr updated, w2)"
    if "updateRelease R (update_request E config existing) w1 = (Inr updated, w2)" for updated w2
    using tried that by (simp add: release_found)
  with tried fields show ?thesis by blast
qed

theorem release_appends_body_witness:
  "findRelease (scripted [Inr v1_release, Inr v1_updated]) (find_request v1_config) []
     = Some (Inr v1_release, [FindRelease v1_find])
   \<and> update_body v1_update = Some (''old'' @ [CHR 0x0A] @ ''notes'')
   \<and> release quiet (scripted [Inr v1_release, Inr v1_updated]) v1_config []
       = Some (Inr v1_updated, [FindRelease v1_find, UpdateRelease v1_update])"
  using release_appends_body
          [of "scripted [Inr v1_release, Inr v1_updated]" v1_config "[]" v1_release
              "[FindRelease v1_find]" quiet]
  by (simp add: scripted_simps answer_def v1_config_requests)
     (simp add: v1_update_def)

section \<open>Errors of createRelease\<close>

text \<open>
  A \<open>createRelease\<close> that fails with status 500 is retried like any other: the
  second pass finds the release and updates it, and no error comes out.
\<close>

theorem create_error_500_is_retried:
  "createRelease (scripted [Inl not_found, Inl server_error, Inr v1_release, Inr v1_updated])
      v1_create [FindRelease v1_find]
     = (Inl server_error, [FindRelease v1_find, CreateRelease v1_create])
   \<and> status server_error = Some 500
   \<and> release quiet (scripted [Inl not_found, Inl server_error, Inr v1_release, Inr v1_updated])
        v1_config []
     = Some (Inr v1_updated,
             [FindRelease v1_find, CreateRelease v1_create,
              FindRelease v1_find, UpdateRelease v1_update])"
  apply (intro conjI)
    apply (simp add: scripted_simps answer_def)
   apply (simp add: server_error_def)
  apply (subst release.simps)
  apply (simp add: release_try_def scripted_simps answer_def not_found_def quiet_simps
                   v1_config_requests)
  apply (subst release.simps)
  apply (simp add: release_try_def scripted_simps answer_def quiet_simps v1_config_requests)
  done

text \<open>
  C1, as the code has it. The handler of a failed \<open>createRelease\<close> prints the
  status and does not test it: whatever the error, \<open>release\<close> goes on as
  \<open>release\<close> in the world after the failure. The errors that end the run and come out unchanged are
  those of the \<open>try\<close> block (\<open>findRelease\<close>, \<open>updateRelease\<close>) whose status
  is not 404.
\<close>

theorem release_retries_whatever_the_status:
  "(release_try E R config w = Some (Inl e, w1) \<and> status e = Some 404
      \<and> createRelease R (create_request E config)
            (console_log E (CreatingRelease (resolved_tag config)) w1) = (Inl e', w2)
     \<longrightarrow> release E R config w
          = release E R config (console_log E (ReleaseFailedRetrying (status e')) w2))
   \<and> (release_try E R config w = Some (Inl e, w1) \<and> status e \<noteq> Some 404
     \<longrightarrow> release E R config w
          = Some (Inl e, console_log E (UnexpectedError (github_ref config) e) w1))"
  using release_retry [of E R config w e w1 e' w2] release_fatal [of E R config w e w1]
  by blast

theorem release_retries_whatever_the_status_witness:
  "release_try quiet (scripted [Inl not_found, Inl server_error]) v1_config []
     = Some (Inl not_found, [FindRelease v1_find])
   \<and> status not_found = Some 404
   \<and> createRelease (scripted [Inl not_found, Inl server_error]) (create_request quiet v1_config)
        (console_log quiet (CreatingRelease (resolved_tag v1_config)) [FindRelease v1_find])
      = (Inl server_error, [FindRelease v1_find, CreateRelease v1_create])
   \<and> release quiet (scripted [Inl not_found, Inl server_error]) v1_config []
      = release quiet (scripted [Inl not_found, Inl server_error]) v1_config
          [FindRelease v1_find, CreateRelease v1_create]
   \<and> release_try quiet (scripted [Inl server_error]) v1_config []
     = Some (Inl server_error, [FindRelease v1_find])
   \<and> status server_error \<noteq> Some 404
   \<and> release quiet (scripted [Inl server_error]) v1_config []
      = Some (Inl server_error, [FindRelease v1_find])"
  using release_retries_whatever_the_status
          [of quiet "scripted [Inl not_found, Inl server_error]" v1_config "[]" not_found
              "[FindRelease v1_find]" server_error
              "[FindRelease v1_find, CreateRelease v1_create]"]
        release_retries_whatever_the_status
          [of quiet "scripted [Inl server_error]" v1_config "[]" server_error
              "[FindRelease v1_find]"]
  by (simp add: release_try_def scripted_simps answer_def quiet_simps not_found_def
                server_error_def v1_config_requests)

section \<open>Retrying without a bound\<close>

lemma release_by_pass:
  "release E R config w =
     (case release_pass E R config w of
        Hangs \<Rightarrow> None
      | Returns x \<Rightarrow> Some x
      | Retries w' \<Rightarrow> release E R config w')"
  by (subst release.simps)
     (simp add: release_pass_def split: option.split sum.split prod.split)

lemma pass_returns_iff:
  "release_pass E R config w = Returns x \<longleftrightarrow>
     (\<exists>rel w1. release_try E R config w = Some (Inr rel, w1) \<and> x = (Inr rel, w1))
     \<or> (\<exists>e w1. release_try E R config w = Some (Inl e, w1) \<and> status e \<noteq> Some 404
           \<and> x = (Inl e, console_log E (UnexpectedError (github_ref config) e) w1))
     \<or> (\<exists>e w1 rel w2. release_try E R config w = Some (Inl e, w1) \<and> status e = Some 404
           \<and> createRelease R (create_request E config)
                 (console_log E (CreatingRelease (resolved_tag config)) w1) = (Inr rel, w2)
           \<and> x = (Inr rel, w2))"
  by (auto simp: release_pass_def split: option.splits sum.splits prod.splits if_splits)

lemma passes_returns_release:
  "passes n E R config w = Returns x \<Longrightarrow> release E R config w = Some x"
proof (induction n arbitrary: w)
  case 0
  then show ?case by simp
next
  case (Suc n)
  show ?case
  proof (cases "release_pass E R config w")
    case (Returns y)
    with Suc.prems show ?thesis by (simp add: release_by_pass)
  next
    case (Retries w')
    with Suc.prems have "passes n E R config w' = Returns x" by simp
    then have "release E R config w' = Some x" by (rule Suc.IH)
    with Retries show ?thesis by (simp add: release_by_pass)
  next
    case Hangs
    with Suc.prems show ?thesis by simp
  qed
qed

lemma release_returns_passes:
  assumes "release E R config w = Some x"
  shows "\<exists>n. passes n E R config w = Returns x"
proof (rule release.raw_induct
         [where P = "\<lambda>E R config w x. \<exists>n. passes n E R config w = Returns x", OF _ assms],
       goal_cases)
  case (1 rel E R config w x)
  show ?case
  proof (cases "release_pass E R config w")
    case (Returns y)
    with 1(2) have "y = x"
      by (auto simp: release_pass_def split: option.splits sum.splits prod.splits if_splits)
    with Returns have "passes (Suc 0) E R config w = Returns x" by simp
    then show ?thesis by blast
  next
    case (Retries w')
    with 1(2) have "rel E R config w' = Some x"
      by (auto simp: release_pass_def split: option.splits sum.splits prod.splits if_splits)
    then obtain n where "passes n E R config w' = Returns x" using 1(1) by blast
    with Retries have "passes (Suc n) E R config w = Returns x" by simp
    then show ?thesis by blast
  next
    case Hangs
    with 1(2) show ?thesis
      by (auto simp: release_pass_def split: option.splits sum.splits prod.splits if_splits)
  qed
qed

lemma passes_always_retry:
  assumes "\<And>w. \<exists>w'. release_pass E R config w = Retries w'"
  shows "\<exists>w'. passes n E R config w = Retries w'"
proof (induction n arbitrary: w)
  case 0
  then show ?case by simp
next
  case (Suc n)
  from assms obtain w1 where "release_pass E R config w = Retries w1" by blast
  with Suc show ?case by simp
qed

lemma release_never_returns:
  assumes "\<And>w. \<exists>w'. release_pass E R config w = Retries w'"
  shows "release E R config w = None"
proof (cases "release E R config w")
  case None
  then show ?thesis .
next
  case (Some x)
  then obtain n where "passes n E R config w = Returns x"
    using release_returns_passes [of E R config w x] by blast
  moreover obtain w' where "passes n E R config w = Retries w'"
    using passes_always_retry [OF assms] by blast
  ultimately show ?thesis by simp
qed

lemma persistent_failure_retries:
  assumes "\<And>p w. \<exists>e w'. findRelease R p w = Some (Inl e, w') \<and> status e = Some 404"
    and "\<And>p w. \<exists>e w'. createRelease R p w = (Inl e, w')"
  shows "\<exists>w'. release_pass E R config w = Retries w'"
proof -
  obtain e w1 where f: "findRelease R (find_request config) w = Some (Inl e, w1)" "status e = Some 404"
    using assms(1) by blast
  obtain e' w2 where "createRelease R (create_request E config)
                     (console_log E (CreatingRelease (resolved_tag config)) w1) = (Inl e', w2)"
    using assms(2) by blast
  with f show ?thesis by (simp add: release_pass_def release_try_def)
qed

lemma flaky_pass:
  "release_pass quiet (flaky m) config n =
     (if n < m then Retries (Suc n) else Returns (Inr v1_release, Suc n))"
  by (simp add: release_pass_def release_try_def flaky_def not_found_def quiet_def)

lemma flaky_passes:
  "n + k = m \<Longrightarrow> passes k quiet (flaky m) config n = Retries m"
proof (induction k arbitrary: n)
  case 0
  then show ?case by simp
next
  case (Suc k)
  then show ?case by (simp add: flaky_pass)
qed

lemma flaky_returns:
  "release quiet (flaky m) config 0 = Some (Inr v1_release, Suc m)"
proof -
  have "n + k = m \<Longrightarrow> passes (Suc k) quiet (flaky m) config n = Returns (Inr v1_release, Suc m)" for n k
  proof (induction k arbitrary: n)
    case 0
    then show ?case by (simp add: flaky_pass)
  next
    case (Suc k)
    from Suc.prems have "n < m" by simp
    moreover have "passes (Suc k) quiet (flaky m) config (Suc n) = Returns (Inr v1_release, Suc m)"
      using Suc.prems by (intro Suc.IH) simp
    ultimately show ?case by (simp add: flaky_pass)
  qed
  then have "passes (Suc m) quiet (flaky m) config 0 = Returns (Inr v1_release, Suc m)" by simp
  then show ?thesis by (rule passes_returns_release)
qed

text \<open>
  A \<open>findRelease\<close> that fails with status 500 ends the run in its first pass,
  although no \<open>findRelease\<close> and no \<open>createRelease\<close> has succeeded.
\<close>

theorem release_ends_on_failed_find:
  "release quiet (scripted [Inl server_error]) v1_config []
     = Some (Inl server_error, [FindRelease v1_find])"
  by (subst release.simps)
     (simp add: release_try_def scripted_simps answer_def server_error_def quiet_simps
                v1_config_requests)

text \<open>
  C6, as the code has it. \<open>release\<close> returns exactly when some pass returns, that
  is when a pass does not end in a failed \<open>createRelease\<close>: its \<open>updateRelease\<close>
  or its \<open>createRelease\<close> succeeds, or its \<open>findRelease\<close> or
  \<open>updateRelease\<close> fails with a status other than 404. With a releaser whose
  \<open>findRelease\<close> always fails with 404 and whose \<open>createRelease\<close> always
  fails, \<open>release\<close> never returns. No count bounds the passes: for every \<open>m\<close>
  there is a releaser with which \<open>release\<close> is still retrying after \<open>m\<close>
  passes and returns after one more.
\<close>

theorem release_has_no_retry_cap:
  "(release E R config w = Some x \<longleftrightarrow> (\<exists>n. passes n E R config w = Returns x))
   \<and> (release_pass E R config w = Returns x \<longleftrightarrow>
        (\<exists>rel w1. release_try E R config w = Some (Inr rel, w1) \<and> x = (Inr rel, w1))
        \<or> (\<exists>e w1. release_try E R config w = Some (Inl e, w1) \<and> status e \<noteq> Some 404
              \<and> x = (Inl e, console_log E (UnexpectedError (github_ref config) e) w1))
        \<or> (\<exists>e w1 rel w2. release_try E R config w = Some (Inl e, w1) \<and> status e = Some 404
              \<and> createRelease R (create_request E config)
                    (console_log E (CreatingRelease (resolved_tag config)) w1) = (Inr rel, w2)
              \<and> x = (Inr rel, w2)))
   \<and> ((\<forall>p w. \<exists>e w'. findRelease R p w = Some (Inl e, w') \<and> status e = Some 404)
        \<and> (\<forall>p w. \<exists>e w'. createRelease R p w = (Inl e, w'))
      \<longrightarrow> release E R config w = None)
   \<and> passes m quiet (flaky m) config 0 = Retries m
   \<and> release quiet (flaky m) config 0 = Some (Inr v1_release, Suc m)"
proof -
  have "release E R config w = Some x \<longleftrightarrow> (\<exists>n. passes n E R config w = Returns x)"
    using release_returns_passes [of E R config w x] passes_returns_release [of _ E R config w x]
    by blast
  moreover have "release E R config w = None"
    if "\<forall>p w. \<exists>e w'. findRelease R p w = Some (Inl e, w') \<and> status e = Some 404"
      and "\<forall>p w. \<exists>e w'. createRelease R p w = (Inl e, w')"
    using that by (intro release_never_returns persistent_failure_retries) blast+
  moreover have "passes m quiet (flaky m) config 0 = Retries m"
    by (simp add: flaky_passes)
  moreover have "release_pass E R config w = Returns x \<longleftrightarrow>
        (\<exists>rel w1. release_try E R config w = Some (Inr rel, w1) \<and> x = (Inr rel, w1))
        \<or> (\<exists>e w1. release_try E R config w = Some (Inl e, w1) \<and> status e \<noteq> Some 404
              \<and> x = (Inl e, console_log E (UnexpectedError (github_ref config) e) w1))
        \<or> (\<exists>e w1 rel w2. release_try E R config w = Some (Inl e, w1) \<and> status e = Some 404
              \<and> createRelease R (create_request E config)
                    (console_log E (CreatingRelease (resolved_tag config)) w1) = (Inr rel, w2)
              \<and> x = (Inr rel, w2))"
    by (rule pass_returns_iff)
  ultimately show ?thesis using flaky_returns [of m config] by blast
qed

theorem release_has_no_retry_cap_witness:
  "(\<forall>p w. \<exists>e w'. findRelease stubborn p w = Some (Inl e, w') \<and> status e = Some 404)
   \<and> (\<forall>p w. \<exists>e w'. createRelease stubborn p w = (Inl e, w'))
   \<and> release quiet stubborn v1_config 0 = None"
  using release_has_no_retry_cap [of quiet stubborn v1_config 0]
  by (simp add: stubborn_def not_found_def)

section \<open>Tag and name\<close>

lemma replace_absent:
  "pat \<noteq> [] \<Longrightarrow> \<not> sublist pat s \<Longrightarrow> replace pat rep s = s"
proof (induction s)
  case Nil
  then show ?case by simp
next
  case (Cons c cs)
  from Cons.prems have "\<not> prefix pat (c # cs)" "\<not> sublist pat cs"
    by (auto simp: sublist_Cons_right)
  with Cons show ?case by simp
qed

lemma replace_at_front: "replace pat rep (pat @ b) = rep @ b"
proof (cases "pat @ b")
  case Nil
  then show ?thesis by simp
next
  case (Cons c cs)
  then have front: "prefix pat (c # cs)" by (metis prefixI)
  have rest: "drop (length pat) (c # cs) = b" by (metis Cons append_eq_conv_conj)
  have "replace pat rep (pat @ b) = replace pat rep (c # cs)" by (simp only: Cons)
  also have "\<dots> = rep @ drop (length pat) (c # cs)" using front by simp
  finally show ?thesis by (simp only: rest)
qed

lemma replace_first:
  "\<forall>k<length a. \<not> prefix pat (drop k (a @ pat @ b)) \<Longrightarrow>
   replace pat rep (a @ pat @ b) = a @ rep @ b"
proof (induction a)
  case Nil
  then show ?case by (simp add: replace_at_front)
next
  case (Cons x a)
  from Cons.prems have "\<not> prefix pat (x # a @ pat @ b)" by (auto dest: spec [of _ 0])
  moreover have "\<forall>k<length a. \<not> prefix pat (drop k (a @ pat @ b))"
  proof (intro allI impI)
    fix k assume "k < length a"
    with Cons.prems have "\<not> prefix pat (drop (Suc k) ((x # a) @ pat @ b))" by (metis Suc_less_eq length_Cons)
    then show "\<not> prefix pat (drop k (a @ pat @ b))" by simp
  qed
  ultimately show ?case using Cons.IH by simp
qed

text \<open>
  C9. When the tag override is undefined or the empty string, the tag that every
  request of \<open>release\<close> carries is the ref with the first occurrence of
  \<open>refs/tags/\<close> removed (the ref itself when it has none); when the name is
  undefined or empty, the name of the release is that tag.
\<close>

theorem falsy_override_derives_tag:
  assumes "input_tag_name config = None \<or> input_tag_name config = Some []"
  shows "resolved_tag config = replace ''refs/tags/'' [] (github_ref config)
    \<and> tag (find_request config) = resolved_tag config
    \<and> create_tag_name (create_request E config) = resolved_tag config
    \<and> update_tag_name (update_request E config existing) = Some (resolved_tag config)
    \<and> (\<forall>a b. github_ref config = a @ ''refs/tags/'' @ b
              \<and> (\<forall>k<length a. \<not> prefix ''refs/tags/'' (drop k (github_ref config)))
           \<longrightarrow> resolved_tag config = a @ b)
    \<and> (\<not> sublist ''refs/tags/'' (github_ref config) \<longrightarrow> resolved_tag config = github_ref config)
    \<and> (input_name config = None \<or> input_name config = Some []
         \<longrightarrow> create_name (create_request E config) = resolved_tag config
           \<and> update_name (update_request E config existing) = Some (resolved_tag config))"
proof -
  have derived: "resolved_tag config = replace ''refs/tags/'' [] (github_ref config)"
    using assms by (auto simp: resolved_tag_def or_string_def)
  have requests: "tag (find_request config) = resolved_tag config
    \<and> create_tag_name (create_request E config) = resolved_tag config
    \<and> update_tag_name (update_request E config existing) = Some (resolved_tag config)"
    by (simp add: find_request_def create_request_def update_request_def Let_def split: prod.split)
  have first: "resolved_tag config = a @ b"
    if "github_ref config = a @ ''refs/tags/'' @ b"
      and "\<forall>k<length a. \<not> prefix ''refs/tags/'' (drop k (github_ref config))" for a b
    using that replace_first [of a "''refs/tags/''" b "[]"] by (simp add: derived)
  have absent: "resolved_tag config = github_ref config"
    if "\<not> sublist ''refs/tags/'' (github_ref config)"
    using that by (simp add: derived replace_absent)
  have names: "create_name (create_request E config) = resolved_tag config
           \<and> update_name (update_request E config existing) = Some (resolved_tag config)"
    if "input_name config = None \<or> input_name config = Some []"
    using that
    by (auto simp: create_request_def update_request_def or_string_def Let_def split: prod.split)
  show ?thesis using derived requests first absent names by blast
qed

theorem falsy_override_derives_tag_witness:
  "(input_tag_name doubled_config = None \<or> input_tag_name doubled_config = Some [])
   \<and> (input_name doubled_config = None \<or> input_name doubled_config = Some [])
   \<and> github_ref doubled_config = [] @ ''refs/tags/'' @ ''refs/tags/v1''
   \<and> resolved_tag doubled_config = ''refs/tags/v1''
   \<and> release quiet (scripted [Inl not_found, Inr v1_release]) doubled_config []
       = Some (Inr v1_release,
               [FindRelease \<lparr>owner = Some ''o'', repo = Some ''r'', tag = ''refs/tags/v1'',
                             draft = False\<rparr>,
                CreateRelease \<lparr>owner = Some ''o'', repo = Some ''r'',
                               create_tag_name = ''refs/tags/v1'',
                               create_name = ''refs/tags/v1'', create_body = Some ''notes'',
                               create_draft = None, create_prerelease = None\<rparr>])"
proof -
  have "github_ref doubled_config = [] @ ''refs/tags/'' @ ''refs/tags/v1''
      \<and> resolved_tag doubled_config = ''refs/tags/v1''"
    using falsy_override_derives_tag
            [of doubled_config "quiet :: call list Platform" v1_release]
    by (simp add: doubled_config_def v1_config_def)
  then have tag: "resolved_tag doubled_config = ''refs/tags/v1''" by (rule conjunct2)
  have fields:
    "github_repository doubled_config = ''o/r''" "input_name doubled_config = Some []"
    "input_draft doubled_config = None" "input_prerelease doubled_config = None"
    by (simp_all add: doubled_config_def v1_config_def)
  have requests:
    "find_request doubled_config
       = \<lparr>owner = Some ''o'', repo = Some ''r'', tag = ''refs/tags/v1'', draft = False\<rparr>"
    "create_request quiet doubled_config
       = \<lparr>owner = Some ''o'', repo = Some ''r'', create_tag_name = ''refs/tags/v1'',
          create_name = ''refs/tags/v1'', create_body = Some ''notes'',
          create_draft = None, create_prerelease = None\<rparr>"
    by (simp_all add: find_request_def create_request_def owner_repo_def tag fields
                      destructure2_def element_def or_string_def Let_def quiet_def)
  have "release quiet (scripted [Inl not_found, Inr v1_release]) doubled_config []
       = Some (Inr v1_release,
               [FindRelease \<lparr>owner = Some ''o'', repo = Some ''r'', tag = ''refs/tags/v1'',
                             draft = False\<rparr>,
                CreateRelease \<lparr>owner = Some ''o'', repo = Some ''r'',
                               create_tag_name = ''refs/tags/v1'',
                               create_name = ''refs/tags/v1'', create_body = Some ''notes'',
                               create_draft = None, create_prerelease = None\<rparr>])"
    by (subst release.simps)
       (simp add: release_try_def scripted_simps answer_def not_found_def quiet_simps
                  requests tag)
  with tag show ?thesis by (simp add: doubled_config_def v1_config_def)
qed

section \<open>Publishing\<close>

text \<open>
  C10. \<open>publishRelease\<close> is one call of \<open>updateRelease\<close>, with the owner, the
  repository, the identifier it was given and \<open>draft: false\<close>, and nothing else.
  A service that leaves unspecified fields unchanged therefore changes the draft flag
  of the release and no other field.
\<close>

theorem publish_changes_draft_only:
  "publishRelease config releaseId R w =
     updateRelease R
       \<lparr>owner = fst (owner_repo config), repo = snd (owner_repo config),
        release_id = releaseId,
        update_tag_name = None, update_target_commitish = None, update_name = None,
        update_body = None, update_draft = Some False, update_prerelease = None\<rparr> w
   \<and> partial_update (publish_request config releaseId) s = s\<lparr>hosted_draft := False\<rparr>"
  by (simp add: publishRelease_def publish_request_def partial_update_def Let_def split: prod.split)

section \<open>Finding a release\<close>

lemma canned_simps:
  "repos_getReleaseByTag (canned pages got created updated) tp log
     = (got, log @ [Sent (GetReleaseByTagRequest tp)])"
  "repos_createRelease (canned pages got created updated) cp log
     = (created, log @ [Sent (CreateReleaseRequest cp)])"
  "repos_updateRelease (canned pages got created updated) up log
     = (updated, log @ [Sent (UpdateReleaseRequest up)])"
  "repos_uploadReleaseAsset (canned pages got created updated) ap log
     = (Inr (), log @ [Sent (UploadReleaseAssetRequest ap)])"
  "paginate_next (canned pages got created updated) lp k log
     = (if k < length pages
        then (Inr (Some (pages ! k)), log @ [Sent (ListReleasesRequest lp k)])
        else (Inr None, log))"
  by (simp_all add: canned_def)

lemma scan_failed:
  "GitHubReleaser_allReleases gh (repo_params.truncate params) k w = (Inl e, w1) \<Longrightarrow>
   scan_releases E gh params k w = Some (Inl e, w1)"
  by (subst scan_releases.simps) simp

lemma scan_over:
  "GitHubReleaser_allReleases gh (repo_params.truncate params) k w = (Inr None, w1) \<Longrightarrow>
   scan_releases E gh params k w = Some (Inr None, w1)"
  by (subst scan_releases.simps) simp

lemma scan_match:
  "GitHubReleaser_allReleases gh (repo_params.truncate params) k w = (Inr (Some page), w1) \<Longrightarrow>
   find (\<lambda>release. tag_name release = tag params) page = Some r \<Longrightarrow>
   scan_releases E gh params k w = Some (Inr (Some r), console_log E (FoundDraft (tag_name r)) w1)"
  by (subst scan_releases.simps) simp

lemma scan_next:
  "GitHubReleaser_allReleases gh (repo_params.truncate params) k w = (Inr (Some page), w1) \<Longrightarrow>
   find (\<lambda>release. tag_name release = tag params) page = None \<Longrightarrow>
   scan_releases E gh params k w = scan_releases E gh params (Suc k) w1"
  by (subst scan_releases.simps) simp

lemma find_holds: "find P xs = Some x \<Longrightarrow> P x"
  by (induction xs) (auto split: if_splits)

lemma scan_sound_any:
  assumes "scan_releases E gh params k w = Some x"
  shows "\<forall>r w'. x = (Inr (Some r), w') \<longrightarrow> tag_name r = tag params"
proof (rule scan_releases.raw_induct
         [where P = "\<lambda>E gh params k w x. \<forall>r w'. x = (Inr (Some r), w') \<longrightarrow> tag_name r = tag params",
          OF _ assms], goal_cases)
  case (1 scan E gh params k w x)
  show ?case
  proof (intro allI impI)
    fix r w' assume x: "x = (Inr (Some r), w')"
    show "tag_name r = tag params"
    proof (cases "GitHubReleaser_allReleases gh (repo_params.truncate params) k w")
      case (Pair a w1)
      show ?thesis
      proof (cases a)
        case (Inl e)
        from 1(2) show ?thesis unfolding Pair Inl x by simp
      next
        case (Inr page)
        show ?thesis
        proof (cases page)
          case None
          from 1(2) show ?thesis unfolding Pair Inr None x by simp
        next
          case (Some rs)
          show ?thesis
          proof (cases "find (\<lambda>release. tag_name release = tag params) rs")
            case None
            from 1(2) have "scan E gh params (Suc k) w1 = Some (Inr (Some r), w')"
              unfolding Pair Inr Some x by (simp add: None)
            from 1(1) [OF this] show ?thesis by simp
          next
            case found: (Some r')
            from 1(2) have "r' = r" unfolding Pair Inr Some x by (simp add: found)
            with found show ?thesis using find_holds [of "\<lambda>release. tag_name release = tag params" rs r] by simp
          qed
        qed
      qed
    qed
  qed
qed

lemma scan_sound:
  "scan_releases E gh params k w = Some (Inr (Some r), w') \<Longrightarrow> tag_name r = tag params"
  using scan_sound_any [of E gh params k w "(Inr (Some r), w')"] by simp

text \<open>
  A listing that ends without a match, and a lookup by tag that finds the release:
  \<open>findRelease\<close> returns the release, not NotFound.
\<close>

theorem findRelease_found_after_fruitless_scan:
  "GitHubReleaser_findRelease quiet (canned [[v0_release]] (Inr v1_release) (Inl not_found) (Inl not_found))
      v1_draft_params []
   = Some (Inr v1_release,
           [Sent (ListReleasesRequest \<lparr>owner = Some ''o'', repo = Some ''r'', per_page = 100\<rparr> 0),
            Sent (GetReleaseByTagRequest \<lparr>owner = Some ''o'', repo = Some ''r'', tag = ''v1''\<rparr>)])"
  apply (simp add: GitHubReleaser_findRelease_def quiet_simps v1_draft_params_def)
  apply (subst scan_releases.simps)
  apply (simp add: GitHubReleaser_allReleases_def canned_simps repo_params.truncate_def v0_release_def)
  apply (subst scan_releases.simps)
  apply (simp add: GitHubReleaser_allReleases_def canned_simps repo_params.truncate_def
                   GitHubReleaser_getReleaseByTag_def tag_params.truncate_def)
  done

text \<open>
  C3, as the code has it. With \<open>draft\<close> false, \<open>findRelease\<close> is the direct
  lookup by tag and nothing else: no page is requested. With \<open>draft\<close> true it
  requests the pages of the listing in order; in the first page that has a release of
  the tag it returns the first such release of the page, and requests no further
  page; a page request that fails ends it with that error. When the listing ends
  without a match, \<open>findRelease\<close> goes on to the lookup by tag and its answer is
  that lookup's answer, which is NotFound only when the lookup says so.
\<close>

theorem findRelease_scans_then_looks_up:
  "(\<not> draft params \<longrightarrow>
      GitHubReleaser_findRelease E gh params w
      = Some (repos_getReleaseByTag gh (tag_params.truncate params)
                (console_log E (LookingForNonDraft (tag params)) w)))
   \<and> (draft params
        \<and> scan_releases E gh params 0 (console_log E (LookingForDraft (tag params)) w)
            = Some (Inr (Some r), w1)
      \<longrightarrow> GitHubReleaser_findRelease E gh params w = Some (Inr r, w1)
          \<and> tag_name r = tag params)
   \<and> (draft params
        \<and> scan_releases E gh params 0 (console_log E (LookingForDraft (tag params)) w)
            = Some (Inr None, w1)
      \<longrightarrow> GitHubReleaser_findRelease E gh params w
          = Some (repos_getReleaseByTag gh (tag_params.truncate params)
                    (console_log E (LookingForNonDraft (tag params)) w1)))
   \<and> (draft params
        \<and> scan_releases E gh params 0 (console_log E (LookingForDraft (tag params)) w)
            = Some (Inl e, w1)
      \<longrightarrow> GitHubReleaser_findRelease E gh params w = Some (Inl e, w1))
   \<and> (paginate_next gh \<lparr>owner = owner params, repo = repo params, per_page = 100\<rparr> k w'
          = (Inr (Some page), w2)
        \<and> find (\<lambda>release. tag_name release = tag params) page = Some r'
      \<longrightarrow> scan_releases E gh params k w'
          = Some (Inr (Some r'), console_log E (FoundDraft (tag_name r')) w2)
          \<and> (\<exists>i<length page. page ! i = r' \<and> tag_name r' = tag params
                \<and> (\<forall>j<i. tag_name (page ! j) \<noteq> tag params)))
   \<and> (paginate_next gh \<lparr>owner = owner params, repo = repo params, per_page = 100\<rparr> k w'
          = (Inr (Some page), w2)
        \<and> find (\<lambda>release. tag_name release = tag params) page = None
      \<longrightarrow> scan_releases E gh params k w' = scan_releases E gh params (Suc k) w2)
   \<and> (paginate_next gh \<lparr>owner = owner params, repo = repo params, per_page = 100\<rparr> k w'
          = (Inr None, w2)
      \<longrightarrow> scan_releases E gh params k w' = Some (Inr None, w2))
   \<and> (paginate_next gh \<lparr>owner = owner params, repo = repo params, per_page = 100\<rparr> k w'
          = (Inl e', w2)
      \<longrightarrow> scan_releases E gh params k w' = Some (Inl e', w2))"
proof -
  let ?page = "paginate_next gh \<lparr>owner = owner params, repo = repo params, per_page = 100\<rparr> k w'"
  let ?scan = "scan_releases E gh params 0 (console_log E (LookingForDraft (tag params)) w)"
  have page: "GitHubReleaser_allReleases gh (repo_params.truncate params) k w' = ?page"
    by (simp add: GitHubReleaser_allReleases_def repo_params.truncate_def)
  have direct: "\<not> draft params \<longrightarrow>
      GitHubReleaser_findRelease E gh params w
      = Some (repos_getReleaseByTag gh (tag_params.truncate params)
                (console_log E (LookingForNonDraft (tag params)) w))"
    by (simp add: GitHubReleaser_findRelease_def GitHubReleaser_getReleaseByTag_def)
  have matched: "draft params \<and> ?scan = Some (Inr (Some r), w1)
      \<longrightarrow> GitHubReleaser_findRelease E gh params w = Some (Inr r, w1)
          \<and> tag_name r = tag params"
  proof
    assume a: "draft params \<and> ?scan = Some (Inr (Some r), w1)"
    then have "tag_name r = tag params"
      using scan_sound [of E gh params 0 "console_log E (LookingForDraft (tag params)) w" r w1] by simp
    moreover from a have "GitHubReleaser_findRelease E gh params w = Some (Inr r, w1)"
      by (simp add: GitHubReleaser_findRelease_def)
    ultimately show "GitHubReleaser_findRelease E gh params w = Some (Inr r, w1)
          \<and> tag_name r = tag params" by simp
  qed
  have fallthrough: "draft params \<and> ?scan = Some (Inr None, w1)
      \<longrightarrow> GitHubReleaser_findRelease E gh params w
          = Some (repos_getReleaseByTag gh (tag_params.truncate params)
                    (console_log E (LookingForNonDraft (tag params)) w1))"
    by (simp add: GitHubReleaser_findRelease_def GitHubReleaser_getReleaseByTag_def)
  have failed: "draft params \<and> ?scan = Some (Inl e, w1)
      \<longrightarrow> GitHubReleaser_findRelease E gh params w = Some (Inl e, w1)"
    by (simp add: GitHubReleaser_findRelease_def)
  have hit: "?page = (Inr (Some page), w2)
        \<and> find (\<lambda>release. tag_name release = tag params) page = Some r'
      \<longrightarrow> scan_releases E gh params k w'
          = Some (Inr (Some r'), console_log E (FoundDraft (tag_name r')) w2)
          \<and> (\<exists>i<length page. page ! i = r' \<and> tag_name r' = tag params
                \<and> (\<forall>j<i. tag_name (page ! j) \<noteq> tag params))"
  proof
    assume a: "?page = (Inr (Some page), w2)
        \<and> find (\<lambda>release. tag_name release = tag params) page = Some r'"
    then have "scan_releases E gh params k w'
          = Some (Inr (Some r'), console_log E (FoundDraft (tag_name r')) w2)"
      using scan_match [of gh params k w' page w2 r' E] by (simp add: page)
    moreover from a have "\<exists>i<length page. page ! i = r' \<and> tag_name r' = tag params
                \<and> (\<forall>j<i. tag_name (page ! j) \<noteq> tag params)"
      unfolding find_Some_iff by blast
    ultimately show "scan_releases E gh params k w'
          = Some (Inr (Some r'), console_log E (FoundDraft (tag_name r')) w2)
          \<and> (\<exists>i<length page. page ! i = r' \<and> tag_name r' = tag params
                \<and> (\<forall>j<i. tag_name (page ! j) \<noteq> tag params))" by simp
  qed
  have miss: "?page = (Inr (Some page), w2)
        \<and> find (\<lambda>release. tag_name release = tag params) page = None
      \<longrightarrow> scan_releases E gh params k w' = scan_releases E gh params (Suc k) w2"
    using scan_next [of gh params k w' page w2 E] by (simp add: page)
  have over: "?page = (Inr None, w2) \<longrightarrow> scan_releases E gh params k w' = Some (Inr None, w2)"
    using scan_over [of gh params k w' w2 E] by (simp add: page)
  have broken: "?page = (Inl e', w2) \<longrightarrow> scan_releases E gh params k w' = Some (Inl e', w2)"
    using scan_failed [of gh params k w' e' w2 E] by (simp add: page)
  show ?thesis
    by (intro conjI) (rule direct matched fallthrough failed hit miss over broken)+
qed

lemma three_pages_scan:
  "scan_releases quiet three_pages v1_draft_params 0 []
   = Some (Inr (Some v1_release),
           [Sent (ListReleasesRequest v1_list 0), Sent (ListReleasesRequest v1_list 1)])"
  apply (subst scan_releases.simps)
  apply (simp add: GitHubReleaser_allReleases_def three_pages_def canned_simps
                   repo_params.truncate_def v0_release_def v1_draft_params_def)
  apply (subst scan_releases.simps)
  apply (simp add: GitHubReleaser_allReleases_def canned_simps repo_params.truncate_def
                   v1_release_def quiet_simps v1_list_def)
  done

lemma one_page_scan:
  "scan_releases quiet (canned [[v0_release]] got created updated) v1_draft_params 0 []
   = Some (Inr None, [Sent (ListReleasesRequest v1_list 0)])"
  apply (subst scan_releases.simps)
  apply (simp add: GitHubReleaser_allReleases_def canned_simps
                   repo_params.truncate_def v0_release_def v1_draft_params_def)
  apply (subst scan_releases.simps)
  apply (simp add: GitHubReleaser_allReleases_def canned_simps repo_params.truncate_def v1_list_def)
  done

lemma v1_draft_params_simps:
  "draft v1_draft_params" "tag v1_draft_params = ''v1''"
  "tag_params.truncate v1_draft_params = \<lparr>owner = Some ''o'', repo = Some ''r'', tag = ''v1''\<rparr>"
  "\<not> draft (v1_draft_params\<lparr>draft := False\<rparr>)"
  "tag (v1_draft_params\<lparr>draft := False\<rparr>) = ''v1''"
  "tag_params.truncate (v1_draft_params\<lparr>draft := False\<rparr>)
     = \<lparr>owner = Some ''o'', repo = Some ''r'', tag = ''v1''\<rparr>"
  by (simp_all add: v1_draft_params_def tag_params.truncate_def)

lemma three_pages_get:
  "repos_getReleaseByTag three_pages p log = (Inl not_found, log @ [Sent (GetReleaseByTagRequest p)])"
  by (simp add: three_pages_def canned_simps)

theorem findRelease_scans_then_looks_up_witness:
  "\<not> draft (v1_draft_params\<lparr>draft := False\<rparr>)
   \<and> GitHubReleaser_findRelease quiet three_pages (v1_draft_params\<lparr>draft := False\<rparr>) []
       = Some (Inl not_found,
               [Sent (GetReleaseByTagRequest \<lparr>owner = Some ''o'', repo = Some ''r'', tag = ''v1''\<rparr>)])
   \<and> draft v1_draft_params
   \<and> scan_releases quiet three_pages v1_draft_params 0
         (console_log quiet (LookingForDraft (tag v1_draft_params)) [])
       = Some (Inr (Some v1_release),
               [Sent (ListReleasesRequest v1_list 0), Sent (ListReleasesRequest v1_list 1)])
   \<and> GitHubReleaser_findRelease quiet three_pages v1_draft_params []
       = Some (Inr v1_release,
               [Sent (ListReleasesRequest v1_list 0), Sent (ListReleasesRequest v1_list 1)])
   \<and> scan_releases quiet (canned [[v0_release]] (Inl not_found) (Inl not_found) (Inl not_found))
         v1_draft_params 0 (console_log quiet (LookingForDraft (tag v1_draft_params)) [])
       = Some (Inr None, [Sent (ListReleasesRequest v1_list 0)])
   \<and> GitHubReleaser_findRelease quiet
         (canned [[v0_release]] (Inl not_found) (Inl not_found) (Inl not_found)) v1_draft_params []
       = Some (Inl not_found,
               [Sent (ListReleasesRequest v1_list 0),
                Sent (GetReleaseByTagRequest \<lparr>owner = Some ''o'', repo = Some ''r'', tag = ''v1''\<rparr>)])"
  using findRelease_scans_then_looks_up
          [of "v1_draft_params\<lparr>draft := False\<rparr>" quiet three_pages "[]", THEN conjunct1]
        findRelease_scans_then_looks_up
          [of v1_draft_params quiet three_pages "[]" v1_release
              "[Sent (ListReleasesRequest v1_list 0), Sent (ListReleasesRequest v1_list 1)]",
           THEN conjunct2, THEN conjunct1]
        findRelease_scans_then_looks_up
          [of v1_draft_params quiet
              "canned [[v0_release]] (Inl not_found) (Inl not_found) (Inl not_found)" "[]" _
              "[Sent (ListReleasesRequest v1_list 0)]",
           THEN conjunct2, THEN conjunct2, THEN conjunct1]
  by (simp add: three_pages_scan one_page_scan quiet_simps canned_simps three_pages_get
                v1_draft_params_simps)

section \<open>MIME types\<close>

lemma mime_getType_examples:
  "mime_getType ''app.zip'' = Some ''application/zip''"
  "mime_getType ''dist/app.zip'' = Some ''application/zip''"
  "mime_getType ''dist/APP.ZIP'' = Some ''application/zip''"
  "mime_getType ''.zip'' = Some ''application/zip''"
  "mime_getType ''dist/.zip'' = None"
  "mime_getType ''dist/app.qqq'' = None"
  "mime_getType ''dist/app'' = None"
  "mime_getType ''dist/notes.txt'' = Some ''text/plain''"
  by code_simp+




section \<open>Runs\<close>


lemma stocked_simps:
  "console_log stocked m log = log @ [Printed m]"
  "console_warn stocked m log = log @ [Warned m]"
  "releaseBody stocked config = Some ''notes''"
  "isTag stocked = prefix ''refs/tags/''"
  "unmatchedPatterns stocked patterns log = []"
  "paths stocked patterns log = patterns"
  "lstatSync_size stocked path log = Inr 3"
  "readFileSync stocked path log = Inr [80, 75, 3]"
  "getType stocked path = mime_getType path"
  "basename stocked path = last (split CHR ''/'' path)"
  by (simp_all add: stocked_def logging_def quiet_def)

lemma fresh_repository_simps:
  "repos_getReleaseByTag fresh_repository tp log = (Inl not_found, log @ [Sent (GetReleaseByTagRequest tp)])"
  "repos_createRelease fresh_repository cp log = (Inr v1_release, log @ [Sent (CreateReleaseRequest cp)])"
  "repos_updateRelease fresh_repository up log = (Inr v1_release, log @ [Sent (UpdateReleaseRequest up)])"
  "repos_uploadReleaseAsset fresh_repository ap log = (Inr (), log @ [Sent (UploadReleaseAssetRequest ap)])"
  "paginate_next fresh_repository lp k log
     = (if k = 0 then (Inr (Some []), log @ [Sent (ListReleasesRequest lp k)]) else (Inr None, log))"
  by (simp_all add: fresh_repository_def canned_simps)

lemma GitHubReleaser_simps:
  "findRelease (GitHubReleaser E gh) = GitHubReleaser_findRelease E gh"
  "createRelease (GitHubReleaser E gh) = repos_createRelease gh"
  "updateRelease (GitHubReleaser E gh) = repos_updateRelease gh"
  by (simp_all add: GitHubReleaser_def GitHubReleaser_createRelease_def
                    GitHubReleaser_updateRelease_def fun_eq_iff)

lemma v1_requests:
  assumes "github_repository c = ''o/r''" "github_ref c = ''refs/tags/v1''"
    and "input_tag_name c = None" "input_name c = None"
  shows "owner_repo c = (Some ''o'', Some ''r'')"
    and "resolved_tag c = ''v1''"
    and "find_request c
         = \<lparr>owner = Some ''o'', repo = Some ''r'', tag = ''v1'',
            draft = (case input_draft c of None \<Rightarrow> False | Some d \<Rightarrow> d)\<rparr>"
    and "create_request E c
         = \<lparr>owner = Some ''o'', repo = Some ''r'', create_tag_name = ''v1'',
            create_name = ''v1'', create_body = releaseBody E c,
            create_draft = input_draft c, create_prerelease = input_prerelease c\<rparr>"
  using assms
  by (simp_all add: find_request_def create_request_def owner_repo_def resolved_tag_def
                    destructure2_def element_def or_string_def Let_def)







lemma staged_config_simps:
  "github_repository staged_config = ''o/r''" "github_ref staged_config = ''refs/tags/v1''"
  "input_tag_name staged_config = None" "input_name staged_config = None"
  "input_draft staged_config = Some False" "input_prerelease staged_config = None"
  "input_files staged_config = Some [''app.zip'']"
  "input_fail_on_unmatched_files staged_config = None"
  "input_draft_until_assets_uploaded staged_config = Some True"
  by (simp_all add: staged_config_def v1_config_def)

text \<open>
  C4. What the code does when \<open>input_draft_until_assets_uploaded\<close> is set:
  \<open>initialConfig\<close> and \<open>config\<close> are one object, so forcing the draft flag on
  the first also sets it on the second, the test of line 62 finds
  \<open>config.input_draft\<close> true, and \<open>publishRelease\<close> is never called. The run
  ends after the uploads and is the run of a user who asked for a draft.
\<close>

theorem staged_run_never_publishes:
  assumes "truthy (input_draft_until_assets_uploaded parsed)"
  shows "run_release E gh [0 \<mapsto> parsed] 0 w
         = (case release E (GitHubReleaser E gh) (parsed\<lparr>input_draft := Some True\<rparr>)
                   (console_log E MarkingDraft w) of
              None \<Rightarrow> None
            | Some (Inl e, w2) \<Rightarrow> Some (Inl e, w2)
            | Some (Inr rel, w2) \<Rightarrow>
                Some (Inr rel,
                      (case input_files parsed of
                         None \<Rightarrow> w2
                       | Some input_files' \<Rightarrow>
                           upload_each E gh (upload_url rel) (paths E input_files' w2)
                             (if length (paths E input_files' w2) = 0
                              then console_warn E (NoValidFiles input_files') w2 else w2))))
       \<and> run E gh parsed w = run E gh (parsed\<lparr>input_draft := Some True\<rparr>) w"
proof -
  have forced: "run_release E gh [0 \<mapsto> parsed] 0 w
         = (case release E (GitHubReleaser E gh) (parsed\<lparr>input_draft := Some True\<rparr>)
                   (console_log E MarkingDraft w) of
              None \<Rightarrow> None
            | Some (Inl e, w2) \<Rightarrow> Some (Inl e, w2)
            | Some (Inr rel, w2) \<Rightarrow>
                Some (Inr rel,
                      (case input_files parsed of
                         None \<Rightarrow> w2
                       | Some input_files' \<Rightarrow>
                           upload_each E gh (upload_url rel) (paths E input_files' w2)
                             (if length (paths E input_files' w2) = 0
                              then console_warn E (NoValidFiles input_files') w2 else w2))))"
    for w
    using assms
    by (simp add: run_release_def set_input_draft_def deref_def truthy_def Let_def
             split: option.split sum.split prod.split)
  have same_release: "run_release E gh [0 \<mapsto> parsed\<lparr>input_draft := Some True\<rparr>] 0 w
                      = run_release E gh [0 \<mapsto> parsed] 0 w" for w
    using assms
    by (simp add: run_release_def set_input_draft_def deref_def truthy_def Let_def
             split: option.split sum.split prod.split)
  have same_checks: "run_checks E (parsed\<lparr>input_draft := Some True\<rparr>) w = run_checks E parsed w"
    by (simp add: run_checks_def Let_def split: option.split)
  have "run E gh parsed w = run E gh (parsed\<lparr>input_draft := Some True\<rparr>) w"
    by (simp add: run_def deref_def same_release same_checks Let_def
             split: prod.split option.split)
  with forced show ?thesis by simp
qed

lemma staged_release:
  "release stocked (GitHubReleaser stocked fresh_repository)
     (staged_config\<lparr>input_draft := Some True\<rparr>) log
   = Some (Inr v1_release,
           log @ [Printed (LookingForDraft ''v1''),
                  Sent (ListReleasesRequest \<lparr>owner = Some ''o'', repo = Some ''r'', per_page = 100\<rparr> 0),
                  Printed (LookingForNonDraft ''v1''),
                  Sent (GetReleaseByTagRequest \<lparr>owner = Some ''o'', repo = Some ''r'', tag = ''v1''\<rparr>),
                  Printed (CreatingRelease ''v1''),
                  Sent (CreateReleaseRequest
                          \<lparr>owner = Some ''o'', repo = Some ''r'', create_tag_name = ''v1'',
                           create_name = ''v1'', create_body = Some ''notes'',
                           create_draft = Some True, create_prerelease = None\<rparr>)])"
  apply (subst release.simps)
  apply (simp add: release_try_def GitHubReleaser_simps GitHubReleaser_findRelease_def
                   v1_requests staged_config_simps stocked_simps)
  apply (subst scan_releases.simps)
  apply (simp add: GitHubReleaser_allReleases_def fresh_repository_simps stocked_simps
                   repo_params.truncate_def)
  apply (subst scan_releases.simps)
  apply (simp add: GitHubReleaser_allReleases_def GitHubReleaser_getReleaseByTag_def
                   fresh_repository_simps stocked_simps repo_params.truncate_def
                   tag_params.truncate_def not_found_def v1_requests staged_config_simps
                   GitHubReleaser_simps)
  done

theorem staged_run_never_publishes_witness:
  "truthy (input_draft_until_assets_uploaded staged_config)
   \<and> input_draft staged_config = Some False
   \<and> run stocked fresh_repository staged_config []
     = Some (SetOutput ''html/7'' ''up/7'',
             [Printed MarkingDraft,
              Printed (LookingForDraft ''v1''),
              Sent (ListReleasesRequest \<lparr>owner = Some ''o'', repo = Some ''r'', per_page = 100\<rparr> 0),
              Printed (LookingForNonDraft ''v1''),
              Sent (GetReleaseByTagRequest \<lparr>owner = Some ''o'', repo = Some ''r'', tag = ''v1''\<rparr>),
              Printed (CreatingRelease ''v1''),
              Sent (CreateReleaseRequest
                      \<lparr>owner = Some ''o'', repo = Some ''r'', create_tag_name = ''v1'',
                       create_name = ''v1'', create_body = Some ''notes'',
                       create_draft = Some True, create_prerelease = None\<rparr>),
              Printed (Uploading ''app.zip''),
              Sent (UploadReleaseAssetRequest
                      \<lparr>url = ''up/7'', content_length = 3, content_type = ''application/zip'',
                       upload_name = ''app.zip'', upload_file = [80, 75, 3]\<rparr>),
              Printed (ReleaseReady ''html/7'')])"
  using staged_run_never_publishes [of staged_config stocked fresh_repository "[]", THEN conjunct1]
  by (simp add: run_def run_checks_def deref_def staged_release staged_config_simps
                stocked_simps truthy_def truthy_string_def upload_def asset_def
                mimeOrDefault_def or_string_def fresh_repository_simps v1_release_def
                mime_getType_examples)

section \<open>Concurrent runs\<close>

lemma GitHubReleaser_fields:
  "findRelease (GitHubReleaser E gh) = GitHubReleaser_findRelease E gh"
  "createRelease (GitHubReleaser E gh) = GitHubReleaser_createRelease gh"
  "updateRelease (GitHubReleaser E gh) = GitHubReleaser_updateRelease gh"
  by (simp_all add: GitHubReleaser_def)

lemma resume_simps:
  "resume E gh config (Starting, w) = release E (GitHubReleaser E gh) config w"
  "resume E gh config (Scanning k, w) = resume_scanning E gh config k w"
  "resume E gh config (LookingUp, w) = resume_looking_up E gh config w"
  "resume E gh config (Updating r, w) = resume_updating E gh config r w"
  "resume E gh config (Creating, w) = resume_creating E gh config w"
  "resume E gh config (Finished outcome, w) = Some (outcome, w)"
  by (simp_all add: resume_def)

lemma resume_caught_step:
  "resume E gh config (caught E config e w) = resume_caught E gh config e w"
  by (simp add: caught_def resume_caught_def resume_def)

lemma release_as_resume:
  "release E (GitHubReleaser E gh) config w =
     (if draft (find_request config)
      then resume_scanning E gh config 0
             (console_log E (LookingForDraft (tag (find_request config))) w)
      else resume_looking_up E gh config w)"
  apply (subst release.simps)
  apply (simp add: release_try_def GitHubReleaser_fields GitHubReleaser_findRelease_def
                   resume_scanning_def resume_looking_up_def resume_updating_def
                   resume_caught_def resume_creating_def
              split: option.split sum.split prod.split)
  done

lemma resume_scanning_unfold:
  "resume_scanning E gh config k w =
     (case GitHubReleaser_allReleases gh (repo_params.truncate (find_request config)) k w of
        (Inl e, w1) \<Rightarrow> resume_caught E gh config e w1
      | (Inr None, w1) \<Rightarrow> resume_looking_up E gh config w1
      | (Inr (Some response_data), w1) \<Rightarrow>
          (case find (\<lambda>r. tag_name r = tag (find_request config)) response_data of
             Some found \<Rightarrow>
               resume_updating E gh config found
                 (console_log E (FoundDraft (tag_name found)) w1)
           | None \<Rightarrow> resume_scanning E gh config (Suc k) w1))"
  unfolding resume_scanning_def
  apply (subst scan_releases.simps)
  apply (simp split: option.split sum.split prod.split)
  done

lemma resume_step: "resume E gh config (release_step E gh config sw) = resume E gh config sw"
proof (cases sw)
  case (Pair s w)
  show ?thesis
  proof (cases s)
    case Starting
    with Pair show ?thesis
      by (simp add: release_step_def resume_simps release_as_resume)
  next
    case (Scanning k)
    with Pair show ?thesis
      by (simp add: release_step_def resume_simps resume_scanning_unfold [of E gh config k w]
                    resume_caught_step
               split: option.split sum.split prod.split)
  next
    case LookingUp
    with Pair show ?thesis
      by (simp add: release_step_def resume_simps resume_looking_up_def resume_caught_step
               split: option.split sum.split prod.split)
  next
    case (Updating r)
    with Pair show ?thesis
      by (simp add: release_step_def resume_simps resume_updating_def resume_caught_step
               split: option.split sum.split prod.split)
  next
    case Creating
    with Pair show ?thesis
      by (simp add: release_step_def resume_simps resume_creating_def
               split: option.split sum.split prod.split)
  next
    case (Finished outcome)
    with Pair show ?thesis by (simp add: release_step_def)
  qed
qed

lemma resume_steps:
  "resume E gh config ((release_step E gh config ^^ n) sw) = resume E gh config sw"
  by (induction n) (simp_all add: resume_step)

lemma steps_finished_release:
  assumes "(release_step E gh config ^^ n) (Starting, w) = (Finished outcome, w')"
  shows "release E (GitHubReleaser E gh) config w = Some (outcome, w')"
proof -
  have "resume E gh config ((release_step E gh config ^^ n) (Starting, w))
        = resume E gh config (Starting, w)"
    by (rule resume_steps)
  with assms show ?thesis by (simp add: resume_simps)
qed

lemma reaches_refl: "reaches E gh config a a"
  unfolding reaches_def by (rule exI [of _ 0]) simp

lemma reaches_step: "reaches E gh config a (release_step E gh config a)"
  unfolding reaches_def by (rule exI [of _ 1]) simp

lemma reaches_trans:
  assumes "reaches E gh config a b" and "reaches E gh config b c"
  shows "reaches E gh config a c"
proof -
  from assms obtain n m where
    "(release_step E gh config ^^ n) a = b" "(release_step E gh config ^^ m) b = c"
    unfolding reaches_def by blast
  then have "(release_step E gh config ^^ (m + n)) a = c" by (simp add: funpow_add)
  then show ?thesis unfolding reaches_def by blast
qed

lemma scan_reaches_any:
  assumes "scan_releases E gh params k w = Some y"
  shows "\<forall>config. params = find_request config \<longrightarrow>
           reaches E gh config (Scanning k, w) (scan_target E config y)"
proof (rule scan_releases.raw_induct
         [where P = "\<lambda>E gh params k w y. \<forall>config. params = find_request config \<longrightarrow>
                        reaches E gh config (Scanning k, w) (scan_target E config y)",
          OF _ assms], goal_cases)
  case (1 scan E gh params k w y)
  show ?case
  proof (intro allI impI)
    fix config assume params: "params = find_request config"
    let ?step = "release_step E gh config (Scanning k, w)"
    have first: "reaches E gh config (Scanning k, w) ?step" by (rule reaches_step)
    show "reaches E gh config (Scanning k, w) (scan_target E config y)"
    proof (cases "GitHubReleaser_allReleases gh (repo_params.truncate params) k w")
      case (Pair a w1)
      show ?thesis
      proof (cases a)
        case (Inl e)
        from 1(2) have "y = (Inl e, w1)" unfolding Pair Inl by simp
        moreover have "?step = caught E config e w1"
          using Pair Inl params by (simp add: release_step_def)
        ultimately show ?thesis using first by (simp add: scan_target_def)
      next
        case (Inr page)
        show ?thesis
        proof (cases page)
          case None
          from 1(2) have "y = (Inr None, w1)" unfolding Pair Inr None by simp
          moreover have "?step = (LookingUp, w1)"
            using Pair Inr None params by (simp add: release_step_def)
          ultimately show ?thesis using first by (simp add: scan_target_def)
        next
          case (Some rs)
          show ?thesis
          proof (cases "find (\<lambda>r. tag_name r = tag params) rs")
            case None
            from 1(2) have "scan E gh params (Suc k) w1 = Some y"
              unfolding Pair Inr Some by (simp add: None)
            from 1(1) [OF this] params
            have "reaches E gh config (Scanning (Suc k), w1) (scan_target E config y)" by simp
            moreover have "?step = (Scanning (Suc k), w1)"
              using Pair Inr Some None params by (simp add: release_step_def)
            ultimately show ?thesis using first reaches_trans by metis
          next
            case found: (Some r)
            from 1(2) have "y = (Inr (Some r), console_log E (FoundDraft (tag_name r)) w1)"
              unfolding Pair Inr Some by (simp add: found)
            moreover have "?step = (Updating r, console_log E (FoundDraft (tag_name r)) w1)"
              using Pair Inr Some found params by (simp add: release_step_def)
            ultimately show ?thesis using first by (simp add: scan_target_def)
          qed
        qed
      qed
    qed
  qed
qed

lemma scan_reaches:
  "scan_releases E gh (find_request config) k w = Some y \<Longrightarrow>
   reaches E gh config (Scanning k, w) (scan_target E config y)"
  using scan_reaches_any [of E gh "find_request config" k w y] by simp

lemma lookup_reaches:
  "reaches E gh config (LookingUp, w)
     (find_target E config
        (GitHubReleaser_getReleaseByTag gh (tag_params.truncate (find_request config))
           (console_log E (LookingForNonDraft (tag (find_request config))) w)))"
proof -
  have "release_step E gh config (LookingUp, w)
        = find_target E config
            (GitHubReleaser_getReleaseByTag gh (tag_params.truncate (find_request config))
               (console_log E (LookingForNonDraft (tag (find_request config))) w))"
    by (simp add: release_step_def find_target_def split: prod.split sum.split)
  then show ?thesis using reaches_step [of E gh config "(LookingUp, w)"] by simp
qed

lemma find_reaches:
  assumes "GitHubReleaser_findRelease E gh (find_request config) w = Some y"
  shows "reaches E gh config (Starting, w) (find_target E config y)"
proof (cases "draft (find_request config)")
  case False
  then have "release_step E gh config (Starting, w) = (LookingUp, w)"
    by (simp add: release_step_def)
  then have "reaches E gh config (Starting, w) (LookingUp, w)"
    using reaches_step [of E gh config "(Starting, w)"] by simp
  moreover from assms False have
    "y = GitHubReleaser_getReleaseByTag gh (tag_params.truncate (find_request config))
           (console_log E (LookingForNonDraft (tag (find_request config))) w)"
    by (simp add: GitHubReleaser_findRelease_def)
  ultimately show ?thesis using lookup_reaches [of E gh config w] reaches_trans by metis
next
  case True
  let ?w0 = "console_log E (LookingForDraft (tag (find_request config))) w"
  from True have "release_step E gh config (Starting, w) = (Scanning 0, ?w0)"
    by (simp add: release_step_def)
  then have start: "reaches E gh config (Starting, w) (Scanning 0, ?w0)"
    using reaches_step [of E gh config "(Starting, w)"] by simp
  from assms True obtain z where scan: "scan_releases E gh (find_request config) 0 ?w0 = Some z"
    by (auto simp: GitHubReleaser_findRelease_def split: option.splits)
  then have scanned: "reaches E gh config (Scanning 0, ?w0) (scan_target E config z)"
    by (rule scan_reaches)
  obtain res w1 where z: "z = (res, w1)" by (cases z)
  show ?thesis
  proof (cases res)
    case (Inl e)
    with assms True scan z have "y = (Inl e, w1)"
      by (simp add: GitHubReleaser_findRelease_def)
    with Inl z have "scan_target E config z = find_target E config y"
      by (simp add: scan_target_def find_target_def)
    with start scanned show ?thesis using reaches_trans by metis
  next
    case (Inr found)
    show ?thesis
    proof (cases found)
      case (Some r)
      with assms True scan z Inr have "y = (Inr r, w1)"
        by (simp add: GitHubReleaser_findRelease_def)
      with Some Inr z have "scan_target E config z = find_target E config y"
        by (simp add: scan_target_def find_target_def)
      with start scanned show ?thesis using reaches_trans by metis
    next
      case None
      with assms True scan z Inr have
        "y = GitHubReleaser_getReleaseByTag gh (tag_params.truncate (find_request config))
               (console_log E (LookingForNonDraft (tag (find_request config))) w1)"
        by (simp add: GitHubReleaser_findRelease_def)
      moreover from None Inr z have "scan_target E config z = (LookingUp, w1)"
        by (simp add: scan_target_def)
      ultimately show ?thesis
        using start scanned lookup_reaches [of E gh config w1] reaches_trans by metis
    qed
  qed
qed

lemma update_reaches:
  "reaches E gh config (Updating r, w)
     (try_target E config (GitHubReleaser_updateRelease gh (update_request E config r) w))"
proof -
  have "release_step E gh config (Updating r, w)
        = try_target E config (GitHubReleaser_updateRelease gh (update_request E config r) w)"
    by (simp add: release_step_def try_target_def split: prod.split sum.split)
  then show ?thesis using reaches_step [of E gh config "(Updating r, w)"] by simp
qed

lemma try_reaches:
  assumes "release_try E (GitHubReleaser E gh) config w = Some y"
  shows "reaches E gh config (Starting, w) (try_target E config y)"
proof -
  from assms obtain z where
    found: "GitHubReleaser_findRelease E gh (find_request config) w = Some z"
    by (auto simp: release_try_def GitHubReleaser_fields split: option.splits)
  then have first: "reaches E gh config (Starting, w) (find_target E config z)"
    by (rule find_reaches)
  obtain res w1 where z: "z = (res, w1)" by (cases z)
  show ?thesis
  proof (cases res)
    case (Inl e)
    with assms found z have "y = (Inl e, w1)"
      by (simp add: release_try_def GitHubReleaser_fields)
    with Inl z have "find_target E config z = try_target E config y"
      by (simp add: find_target_def try_target_def)
    with first show ?thesis by simp
  next
    case (Inr existing)
    with assms found z have
      "y = GitHubReleaser_updateRelease gh (update_request E config existing) w1"
      by (simp add: release_try_def GitHubReleaser_fields)
    moreover from Inr z have "find_target E config z = (Updating existing, w1)"
      by (simp add: find_target_def)
    ultimately show ?thesis
      using first update_reaches [of E gh config existing w1] reaches_trans by metis
  qed
qed

lemma pass_reaches:
  assumes "pass_target (release_pass E (GitHubReleaser E gh) config w) = Some b"
  shows "reaches E gh config (Starting, w) b"
proof (cases "release_try E (GitHubReleaser E gh) config w")
  case None
  with assms show ?thesis by (simp add: release_pass_def pass_target_def)
next
  case (Some y)
  then have tried: "reaches E gh config (Starting, w) (try_target E config y)"
    by (rule try_reaches)
  obtain res w1 where y: "y = (res, w1)" by (cases y)
  show ?thesis
  proof (cases res)
    case (Inr rel)
    with assms Some y have "b = (Finished (Inr rel), w1)"
      by (simp add: release_pass_def pass_target_def)
    with tried Inr y show ?thesis by (simp add: try_target_def)
  next
    case (Inl e)
    show ?thesis
    proof (cases "status e = Some 404")
      case False
      with assms Some y Inl have
        "b = (Finished (Inl e), console_log E (UnexpectedError (github_ref config) e) w1)"
        by (simp add: release_pass_def pass_target_def)
      with tried Inl y False show ?thesis by (simp add: try_target_def caught_def)
    next
      case True
      with tried Inl y have creating: "reaches E gh config (Starting, w) (Creating, w1)"
        by (simp add: try_target_def caught_def)
      have "release_step E gh config (Creating, w1) = b"
        using assms Some y Inl True
        by (auto simp: release_pass_def pass_target_def release_step_def GitHubReleaser_fields
                 split: prod.splits sum.splits)
      then have "reaches E gh config (Creating, w1) b"
        using reaches_step [of E gh config "(Creating, w1)"] by simp
      with creating show ?thesis using reaches_trans by metis
    qed
  qed
qed

lemma passes_reach:
  "passes m E (GitHubReleaser E gh) config w = Returns (outcome, w') \<Longrightarrow>
   reaches E gh config (Starting, w) (Finished outcome, w')"
proof (induction m arbitrary: w)
  case 0
  then show ?case by simp
next
  case (Suc m)
  show ?case
  proof (cases "release_pass E (GitHubReleaser E gh) config w")
    case (Returns y)
    with Suc.prems have "y = (outcome, w')" by simp
    with Returns have
      "pass_target (release_pass E (GitHubReleaser E gh) config w) = Some (Finished outcome, w')"
      by (simp add: pass_target_def)
    then show ?thesis by (rule pass_reaches)
  next
    case (Retries w1)
    then have "pass_target (release_pass E (GitHubReleaser E gh) config w) = Some (Starting, w1)"
      by (simp add: pass_target_def)
    then have "reaches E gh config (Starting, w) (Starting, w1)" by (rule pass_reaches)
    moreover from Suc.prems Retries have
      "passes m E (GitHubReleaser E gh) config w1 = Returns (outcome, w')" by simp
    then have "reaches E gh config (Starting, w1) (Finished outcome, w')" by (rule Suc.IH)
    ultimately show ?thesis using reaches_trans by metis
  next
    case Hangs
    with Suc.prems show ?thesis by simp
  qed
qed

lemma release_is_stepwise:
  "release E (GitHubReleaser E gh) config w = Some (outcome, w')
   \<longleftrightarrow> reaches E gh config (Starting, w) (Finished outcome, w')"
proof
  assume "release E (GitHubReleaser E gh) config w = Some (outcome, w')"
  then obtain m where "passes m E (GitHubReleaser E gh) config w = Returns (outcome, w')"
    using release_returns_passes [of E "GitHubReleaser E gh" config w "(outcome, w')"] by blast
  then show "reaches E gh config (Starting, w) (Finished outcome, w')" by (rule passes_reach)
next
  assume "reaches E gh config (Starting, w) (Finished outcome, w')"
  then obtain n where "(release_step E gh config ^^ n) (Starting, w) = (Finished outcome, w')"
    unfolding reaches_def by blast
  then show "release E (GitHubReleaser E gh) config w = Some (outcome, w')"
    by (rule steps_finished_release)
qed

lemma fold_max_bounds: "(a::int) \<le> fold max xs a \<and> (\<forall>x\<in>set xs. x \<le> fold max xs a)"
proof (induction xs arbitrary: a)
  case Nil
  then show ?case by simp
next
  case (Cons y ys)
  from Cons [of "max y a"] show ?case by auto
qed

lemma next_id_fresh: "h \<in> set srv \<Longrightarrow> id' h < next_id srv"
  using fold_max_bounds [of 0 "map id' srv"] by (auto simp: next_id_def)

lemma evolves_refl: "evolves srv srv"
  by (simp add: evolves_def)

lemma keys_of_identities: "map key srv = map snd (map identity srv)"
  by (simp add: identity_def comp_def)

lemma ids_of_identities: "map id' srv = map fst (map identity srv)"
  by (simp add: identity_def comp_def)

lemma evolves_one_per_tag:
  assumes "one_per_tag srv" and "evolves srv srv'"
  shows "one_per_tag srv'"
  using assms unfolding evolves_def
proof (elim disjE exE conjE)
  assume "map identity srv' = map identity srv"
  then have "map key srv' = map key srv" by (simp only: keys_of_identities)
  with assms(1) show ?thesis by (simp add: one_per_tag_def)
next
  fix h assume "srv' = h # srv" "key h \<notin> set (map key srv)"
  with assms(1) show ?thesis by (simp add: one_per_tag_def)
qed

lemma evolves_ids:
  assumes "distinct (map id' srv)" and "evolves srv srv'"
  shows "distinct (map id' srv')"
  using assms unfolding evolves_def
proof (elim disjE exE conjE)
  assume "map identity srv' = map identity srv"
  then have "map id' srv' = map id' srv" by (simp only: ids_of_identities)
  with assms(1) show ?thesis by simp
next
  fix h assume h: "srv' = h # srv" "id' h = next_id srv"
  have "next_id srv \<notin> set (map id' srv)" using next_id_fresh by fastforce
  with assms(1) h show ?thesis by simp
qed

lemma stage_ok_identities:
  "stage_ok config s srv =
     (case s of
        Updating r \<Rightarrow>
          id' r \<in> fst ` set (map identity srv)
          \<and> (\<forall>x\<in>set (map identity srv).
                fst x \<noteq> id' r
                \<or> snd x = (fst (owner_repo config), snd (owner_repo config), resolved_tag config))
      | _ \<Rightarrow> True)"
  by (cases s) (auto simp: stage_ok_def identity_def list_ex_iff list_all_iff image_image
                      intro: rev_image_eqI)

lemma evolves_stage_ok:
  assumes "stage_ok config s srv" and "evolves srv srv'"
  shows "stage_ok config s srv'"
  using assms(2) unfolding evolves_def
proof (elim disjE exE conjE)
  assume same: "map identity srv' = map identity srv"
  have "stage_ok config s srv' = stage_ok config s srv"
    unfolding stage_ok_identities same ..
  with assms(1) show ?thesis by simp
next
  fix h assume h: "srv' = h # srv" "id' h = next_id srv"
  show ?thesis
  proof (cases s)
    case (Updating r)
    with assms(1) obtain h0 where "h0 \<in> set srv" "id' h0 = id' r"
      by (auto simp: stage_ok_def list_ex_iff)
    then have "id' h \<noteq> id' r" using next_id_fresh [of h0 srv] h by simp
    with assms(1) Updating h show ?thesis by (simp add: stage_ok_def)
  qed (simp_all add: stage_ok_def)
qed

lemma request_fields:
  "owner (find_request config) = fst (owner_repo config)"
  "repo (find_request config) = snd (owner_repo config)"
  "tag (find_request config) = resolved_tag config"
  "owner (create_request E config) = fst (owner_repo config)"
  "repo (create_request E config) = snd (owner_repo config)"
  "create_tag_name (create_request E config) = resolved_tag config"
  "owner (update_request E config r) = fst (owner_repo config)"
  "repo (update_request E config r) = snd (owner_repo config)"
  "release_id (update_request E config r) = id' r"
  "update_tag_name (update_request E config r) = Some (resolved_tag config)"
  by (simp_all add: find_request_def create_request_def update_request_def Let_def
               split: prod.split)

lemma muted_simps:
  "console_log (muted E) m w = w" "console_warn (muted E) m w = w"
  by (simp_all add: muted_def)

lemma github_service_simps:
  "GitHubReleaser_getReleaseByTag github_service = service_getReleaseByTag"
  "GitHubReleaser_createRelease github_service = service_createRelease"
  "GitHubReleaser_updateRelease github_service = service_updateRelease"
  "GitHubReleaser_allReleases github_service p
     = service_listReleases \<lparr>owner = owner p, repo = repo p, per_page = 100\<rparr>"
  by (simp_all add: github_service_def GitHubReleaser_getReleaseByTag_def
                    GitHubReleaser_createRelease_def GitHubReleaser_updateRelease_def
                    GitHubReleaser_allReleases_def fun_eq_iff)

lemma hosted_is_ok:
  assumes "distinct (map id' srv)" and "h \<in> set srv"
    and "key h = (fst (owner_repo config), snd (owner_repo config), resolved_tag config)"
    and "id' r = id' h"
  shows "stage_ok config (Updating r) srv"
proof -
  have "h' = h" if "h' \<in> set srv" "id' h' = id' h" for h'
    using that assms(1,2) by (meson distinct_map inj_onD)
  with assms show ?thesis
    by (auto simp: stage_ok_def list_ex_iff list_all_iff)
qed

lemma find_in_set: "find P xs = Some x \<Longrightarrow> x \<in> set xs \<and> P x"
  by (induction xs) (auto split: if_splits)

lemma listed_found:
  assumes "service_listReleases p k srv = (Inr (Some page), srv')"
    and "find (\<lambda>r. tag_name r = t) page = Some r"
  shows "srv' = srv \<and> (\<exists>h\<in>set srv. key h = (owner p, repo p, t) \<and> id' r = id' h)"
proof -
  from assms(2) have r: "r \<in> set page" "tag_name r = t" using find_in_set [of _ page r] by auto
  from assms(1) have same: "srv' = srv"
    and page: "page = take (per_page p) (drop (k * per_page p) (map response (filter (in_repo p) srv)))"
    by (auto simp: service_listReleases_def Let_def split: if_splits)
  from r(1) page have "r \<in> set (map response (filter (in_repo p) srv))"
    by (meson in_set_dropD in_set_takeD)
  then obtain h where "h \<in> set srv" "in_repo p h" "r = response h" by auto
  with r(2) same show ?thesis
    by (auto simp: key_def in_repo_def response_def intro!: bexI [of _ h])
qed

lemma looked_up:
  assumes "service_getReleaseByTag p srv = (Inr r, srv')"
  shows "srv' = srv \<and> (\<exists>h\<in>set srv. key h = (owner p, repo p, tag p) \<and> id' r = id' h)"
proof -
  from assms obtain h where
    h: "find (\<lambda>h. in_repo p h \<and> tag_name h = tag p \<and> \<not> hosted_draft h) srv = Some h"
      "r = response h" "srv' = srv"
    by (auto simp: service_getReleaseByTag_def split: option.splits)
  from h(1) have "h \<in> set srv" "in_repo p h" "tag_name h = tag p"
    using find_in_set [of _ srv h] by auto
  with h(2,3) show ?thesis
    by (auto simp: key_def in_repo_def response_def intro!: bexI [of _ h])
qed

lemma unchanged_by_reads:
  "snd (service_getReleaseByTag p srv) = srv" "snd (service_listReleases lp k srv) = srv"
  by (simp_all add: service_getReleaseByTag_def service_listReleases_def Let_def
               split: option.split)

lemma create_evolves: "evolves srv (snd (service_createRelease p srv))"
proof (cases "list_ex (\<lambda>h. in_repo p h \<and> tag_name h = create_tag_name p) srv")
  case True
  then show ?thesis by (simp add: service_createRelease_def evolves_refl)
next
  case False
  then have "(owner p, repo p, create_tag_name p) \<notin> set (map key srv)"
    by (auto simp: list_ex_iff key_def in_repo_def)
  with False show ?thesis
    by (simp add: service_createRelease_def evolves_def Let_def key_def)
qed

lemma update_evolves:
  assumes "stage_ok config (Updating r) srv"
    and "owner p = fst (owner_repo config)" "repo p = snd (owner_repo config)"
    and "release_id p = id' r" "update_tag_name p = Some (resolved_tag config)"
  shows "evolves srv (snd (service_updateRelease p srv))"
proof -
  have kept: "identity (partial_update p h) = identity h"
    if "h \<in> set srv" "in_repo p h" "id' h = release_id p" for h
  proof -
    from assms(1) that(1,3) assms(4) have "tag_name h = resolved_tag config"
      by (auto simp: stage_ok_def list_all_iff key_def)
    with assms(5) show ?thesis
      by (simp add: partial_update_def identity_def key_def)
  qed
  have "map identity (map (\<lambda>h. if in_repo p h \<and> id' h = release_id p
                                 then partial_update p h else h) srv) = map identity srv"
    using kept by (induction srv) auto
  then show ?thesis
    by (auto simp: service_updateRelease_def evolves_def split: option.split)
qed

lemma caught_stage_ok: "stage_ok config (fst (caught E config e w)) srv"
  by (simp add: caught_def stage_ok_def)

lemma caught_world: "snd (caught (muted E) config e w) = w"
  by (simp add: caught_def muted_simps)

lemma step_evolves:
  assumes "distinct (map id' srv)" and "stage_ok config s srv"
    and "release_step (muted E) github_service config (s, srv) = (s', srv')"
  shows "evolves srv srv' \<and> stage_ok config s' srv'"
proof (cases s)
  case Starting
  with assms(3) show ?thesis
    by (auto simp: release_step_def muted_simps evolves_refl stage_ok_def split: if_splits)
next
  case (Scanning k)
  let ?lp = "\<lparr>owner = fst (owner_repo config), repo = snd (owner_repo config), per_page = 100\<rparr>"
  obtain res srv1 where listed: "service_listReleases ?lp k srv = (res, srv1)"
    by (cases "service_listReleases ?lp k srv")
  then have same: "srv1 = srv" using unchanged_by_reads(2) [of ?lp k srv] by simp
  show ?thesis
  proof (cases res)
    case (Inl e)
    with assms(3) Scanning listed same have "(s', srv') = caught (muted E) config e srv"
      by (simp add: release_step_def github_service_simps request_fields repo_params.truncate_def)
    then have "s' = fst (caught (muted E) config e srv)" "srv' = srv"
      using caught_world [of E config e srv] by (metis fst_conv, metis snd_conv)
    then show ?thesis by (simp add: evolves_refl caught_stage_ok)
  next
    case (Inr page)
    show ?thesis
    proof (cases page)
      case None
      with assms(3) Scanning listed same Inr show ?thesis
        by (auto simp: release_step_def github_service_simps request_fields
                       repo_params.truncate_def evolves_refl stage_ok_def)
    next
      case (Some rs)
      show ?thesis
      proof (cases "find (\<lambda>r. tag_name r = resolved_tag config) rs")
        case None
        with assms(3) Scanning listed same Inr Some show ?thesis
          by (auto simp: release_step_def github_service_simps request_fields
                         repo_params.truncate_def evolves_refl stage_ok_def)
      next
        case found: (Some r)
        with assms(3) Scanning listed same Inr Some have step: "s' = Updating r" "srv' = srv"
          by (auto simp: release_step_def github_service_simps request_fields
                         repo_params.truncate_def muted_simps)
        from listed Inr Some found obtain h where
          "h \<in> set srv" "id' r = id' h"
          "key h = (fst (owner_repo config), snd (owner_repo config), resolved_tag config)"
          using listed_found [of ?lp k srv rs srv1 "resolved_tag config" r] by auto
        with assms(1) have "stage_ok config (Updating r) srv" by (intro hosted_is_ok)
        with step show ?thesis by (simp add: evolves_refl)
      qed
    qed
  qed
next
  case LookingUp
  let ?tp = "\<lparr>owner = fst (owner_repo config), repo = snd (owner_repo config),
              tag = resolved_tag config\<rparr>"
  obtain res srv1 where got: "service_getReleaseByTag ?tp srv = (res, srv1)"
    by (cases "service_getReleaseByTag ?tp srv")
  then have same: "srv1 = srv" using unchanged_by_reads(1) [of ?tp srv] by simp
  show ?thesis
  proof (cases res)
    case (Inl e)
    with assms(3) LookingUp got same have "(s', srv') = caught (muted E) config e srv"
      by (simp add: release_step_def github_service_simps request_fields tag_params.truncate_def
                    muted_simps)
    then have "s' = fst (caught (muted E) config e srv)" "srv' = srv"
      using caught_world [of E config e srv] by (metis fst_conv, metis snd_conv)
    then show ?thesis by (simp add: evolves_refl caught_stage_ok)
  next
    case (Inr r)
    with assms(3) LookingUp got same have step: "s' = Updating r" "srv' = srv"
      by (auto simp: release_step_def github_service_simps request_fields
                     tag_params.truncate_def muted_simps)
    from got Inr obtain h where
      "h \<in> set srv" "id' r = id' h"
      "key h = (fst (owner_repo config), snd (owner_repo config), resolved_tag config)"
      using looked_up [of ?tp srv r srv1] by auto
    with assms(1) have "stage_ok config (Updating r) srv" by (intro hosted_is_ok)
    with step show ?thesis by (simp add: evolves_refl)
  qed
next
  case (Updating r)
  let ?up = "update_request (muted E) config r"
  obtain res srv1 where updated: "service_updateRelease ?up srv = (res, srv1)"
    by (cases "service_updateRelease ?up srv")
  have "evolves srv (snd (service_updateRelease ?up srv))"
    using assms(2) Updating by (intro update_evolves [of config r]) (simp_all add: request_fields)
  with updated have ev: "evolves srv srv1" by simp
  show ?thesis
  proof (cases res)
    case (Inl e)
    with assms(3) Updating updated have "(s', srv') = caught (muted E) config e srv1"
      by (simp add: release_step_def github_service_simps)
    then have "s' = fst (caught (muted E) config e srv1)" "srv' = srv1"
      using caught_world [of E config e srv1] by (metis fst_conv, metis snd_conv)
    with ev show ?thesis by (simp add: caught_stage_ok)
  next
    case (Inr rel)
    with assms(3) Updating updated have "s' = Finished (Inr rel)" "srv' = srv1"
      by (auto simp: release_step_def github_service_simps)
    with ev show ?thesis by (simp add: stage_ok_def)
  qed
next
  case Creating
  let ?cp = "create_request (muted E) config"
  obtain res srv1 where created: "service_createRelease ?cp srv = (res, srv1)"
    by (cases "service_createRelease ?cp srv")
  with create_evolves [of srv ?cp] have ev: "evolves srv srv1" by simp
  from assms(3) Creating created have "srv' = srv1" "s' = Starting \<or> (\<exists>rel. s' = Finished (Inr rel))"
    by (auto simp: release_step_def github_service_simps muted_simps split: sum.splits)
  with ev show ?thesis by (auto simp: stage_ok_def)
next
  case (Finished outcome)
  with assms(3) show ?thesis
    by (auto simp: release_step_def evolves_refl stage_ok_def)
qed

lemma system_step_coherent:
  assumes "coherent configs sys"
  shows "coherent configs (system_step E configs i sys)"
proof (cases sys)
  case (Pair stages srv)
  from assms Pair have inv: "one_per_tag srv" "distinct (map id' srv)"
    "length stages = length configs"
    and ok: "\<And>j. j < length stages \<Longrightarrow> stage_ok (configs ! j) (stages ! j) srv"
    by (auto simp: coherent_def list_all_iff)
  show ?thesis
  proof (cases "i < length stages")
    case False
    with assms Pair inv(3) show ?thesis by (simp add: system_step_def)
  next
    case True
    obtain s' srv' where
      step: "release_step (muted E) github_service (configs ! i) (stages ! i, srv) = (s', srv')"
      by (cases "release_step (muted E) github_service (configs ! i) (stages ! i, srv)")
    from step_evolves [OF inv(2) ok [OF True] step]
    have ev: "evolves srv srv'" and mine: "stage_ok (configs ! i) s' srv'" by simp_all
    have "stage_ok (configs ! j) (stages[i := s'] ! j) srv'" if "j < length stages" for j
    proof (cases "j = i")
      case True
      with that mine show ?thesis by simp
    next
      case False
      with that ok [OF that] ev show ?thesis by (simp add: evolves_stage_ok)
    qed
    moreover have "one_per_tag srv'" "distinct (map id' srv')"
      using inv ev by (simp_all add: evolves_one_per_tag evolves_ids)
    moreover have "system_step E configs i sys = (stages[i := s'], srv')"
      using Pair True inv(3) step by (simp add: system_step_def)
    ultimately show ?thesis using inv(3) by (simp add: coherent_def list_all_iff)
  qed
qed

lemma run_schedule_coherent:
  "coherent configs sys \<Longrightarrow> coherent configs (run_schedule E configs schedule sys)"
  unfolding run_schedule_def
  by (induction schedule arbitrary: sys) (simp_all add: system_step_coherent)

lemma starting_coherent:
  "one_per_tag srv \<Longrightarrow> distinct (map id' srv) \<Longrightarrow>
   coherent configs (replicate (length configs) Starting, srv)"
  by (simp add: coherent_def list_all_iff stage_ok_def)

lemma alone_is_schedule:
  "(release_step (muted E) github_service config ^^ n) (Starting, srv) = (s, srv') \<Longrightarrow>
   run_schedule E [config] (replicate n 0) ([Starting], srv) = ([s], srv')"
proof (induction n arbitrary: s srv')
  case 0
  then show ?case by (simp add: run_schedule_def)
next
  case (Suc n)
  obtain s1 srv1 where
    before: "(release_step (muted E) github_service config ^^ n) (Starting, srv) = (s1, srv1)"
    by (cases "(release_step (muted E) github_service config ^^ n) (Starting, srv)")
  then have "run_schedule E [config] (replicate n 0) ([Starting], srv) = ([s1], srv1)"
    by (rule Suc.IH)
  moreover from Suc.prems before have
    "release_step (muted E) github_service config (s1, srv1) = (s, srv')" by simp
  ultimately show ?case
    by (simp add: run_schedule_def system_step_def replicate_append_same [symmetric]
             del: replicate_Suc)
qed

text \<open>
  C5. On the service of section 4.1 of the specification, start any number of runs of
  \<open>release\<close> from a state with at most one release for each owner, repository and
  tag, and let them take turns in any order, request by request: every state they
  reach, and so the state in which they have all finished, has at most one release
  for each owner, repository and tag. In particular a single run of \<open>release\<close>
  that returns leaves such a state (by \<open>release_is_stepwise\<close>, the steps are
  \<open>release\<close>). The schedule evaluated after the theorem is the race: both runs look the tag
  up and find nothing, the first creates the release, the create of the second fails
  with the conflict, and the second goes round, finds the release and updates it.
\<close>

theorem one_release_per_tag:
  assumes "one_per_tag srv" and "distinct (map id' srv)"
  shows "one_per_tag (snd (run_schedule E configs schedule
                              (replicate (length configs) Starting, srv)))
       \<and> (\<forall>config outcome srv'.
            release (muted E) (GitHubReleaser (muted E) github_service) config srv
              = Some (outcome, srv')
            \<longrightarrow> one_per_tag srv')"
proof -
  have coherent_one: "one_per_tag (snd sys)" if "coherent configs sys" for configs sys
    using that by (cases sys) (simp add: coherent_def)
  have "coherent configs (run_schedule E configs schedule (replicate (length configs) Starting, srv))"
    for configs schedule
    using assms by (intro run_schedule_coherent starting_coherent)
  then have any: "one_per_tag (snd (run_schedule E configs schedule
                              (replicate (length configs) Starting, srv)))" for configs schedule
    by (rule coherent_one)
  have "one_per_tag srv'"
    if "release (muted E) (GitHubReleaser (muted E) github_service) config srv
          = Some (outcome, srv')" for config outcome srv'
  proof -
    from that obtain n where
      "(release_step (muted E) github_service config ^^ n) (Starting, srv)
         = (Finished outcome, srv')"
      using release_is_stepwise [of "muted E" github_service config srv outcome srv']
      unfolding reaches_def by blast
    then have "run_schedule E [config] (replicate n 0) ([Starting], srv)
                 = ([Finished outcome], srv')"
      by (rule alone_is_schedule)
    with any [of "[config]" "replicate n 0"] show ?thesis by simp
  qed
  with any show ?thesis by blast
qed

lemma v1_muted_requests:
  "owner_repo v1_config = (Some ''o'', Some ''r'')"
  "resolved_tag v1_config = ''v1''"
  "find_request v1_config = \<lparr>owner = Some ''o'', repo = Some ''r'', tag = ''v1'', draft = False\<rparr>"
  "create_request (muted quiet) v1_config
     = \<lparr>owner = Some ''o'', repo = Some ''r'', create_tag_name = ''v1'', create_name = ''v1'',
        create_body = Some ''notes'', create_draft = None, create_prerelease = None\<rparr>"
  "update_request (muted quiet) v1_config r
     = \<lparr>owner = Some ''o'', repo = Some ''r'', release_id = id' r,
        update_tag_name = Some ''v1'', update_target_commitish = Some (target_commitish r),
        update_name = Some ''v1'', update_body = Some (body r @ [CHR 0x0A] @ ''notes''),
        update_draft = None, update_prerelease = None\<rparr>"
  by (simp_all add: find_request_def create_request_def update_request_def owner_repo_def
                    resolved_tag_def destructure2_def element_def or_string_def Let_def
                    v1_config_def muted_def quiet_def interpolate_def)

lemma race_schedule:
  "run_schedule quiet [v1_config, v1_config] [0, 1, 0, 1, 0, 1, 1, 1, 1] ([Starting, Starting], [])
   = ([Finished
         (Inr \<lparr>id' = 1, upload_url = [], html_url = [], tag_name = ''v1'',
               body = ''notes'', target_commitish = []\<rparr>),
       Finished
         (Inr \<lparr>id' = 1, upload_url = [], html_url = [], tag_name = ''v1'',
               body = ''notes'' @ [CHR 0x0A] @ ''notes'', target_commitish = []\<rparr>)],
      [\<lparr>id' = 1, upload_url = [], html_url = [], tag_name = ''v1'',
        body = ''notes'' @ [CHR 0x0A] @ ''notes'', target_commitish = [],
        hosted_owner = Some ''o'', hosted_repo = Some ''r'',
        hosted_name = ''v1'', hosted_draft = False, hosted_prerelease = False\<rparr>])"
  by (simp add: run_schedule_def system_step_def release_step_def v1_muted_requests
                github_service_simps muted_simps service_getReleaseByTag_def
                service_createRelease_def service_updateRelease_def caught_def
                not_found_def conflict_def next_id_def in_repo_def response_def
                tag_params.truncate_def truthy_def partial_update_def)

lemma first_release:
  "release (muted quiet) (GitHubReleaser (muted quiet) github_service) v1_config []
   = Some (Inr \<lparr>id' = 1, upload_url = [], html_url = [], tag_name = ''v1'',
                 body = ''notes'', target_commitish = []\<rparr>,
           [\<lparr>id' = 1, upload_url = [], html_url = [], tag_name = ''v1'',
             body = ''notes'', target_commitish = [],
             hosted_owner = Some ''o'', hosted_repo = Some ''r'',
             hosted_name = ''v1'', hosted_draft = False, hosted_prerelease = False\<rparr>])"
  apply (subst release.simps)
  apply (simp add: release_try_def GitHubReleaser_fields GitHubReleaser_findRelease_def
                   v1_muted_requests github_service_simps muted_simps
                   service_getReleaseByTag_def service_createRelease_def
                   not_found_def next_id_def in_repo_def response_def
                   tag_params.truncate_def truthy_def)
  done

theorem one_release_per_tag_witness:
  "one_per_tag [] \<and> distinct (map id' ([] :: service))
   \<and> run_schedule quiet [v1_config, v1_config] [0, 1, 0, 1, 0, 1, 1, 1, 1]
         (replicate (length [v1_config, v1_config]) Starting, [])
       = ([Finished
             (Inr \<lparr>id' = 1, upload_url = [], html_url = [], tag_name = ''v1'',
                   body = ''notes'', target_commitish = []\<rparr>),
           Finished
             (Inr \<lparr>id' = 1, upload_url = [], html_url = [], tag_name = ''v1'',
                   body = ''notes'' @ [CHR 0x0A] @ ''notes'', target_commitish = []\<rparr>)],
          [\<lparr>id' = 1, upload_url = [], html_url = [], tag_name = ''v1'',
            body = ''notes'' @ [CHR 0x0A] @ ''notes'', target_commitish = [],
            hosted_owner = Some ''o'', hosted_repo = Some ''r'',
            hosted_name = ''v1'', hosted_draft = False, hosted_prerelease = False\<rparr>])
   \<and> one_per_tag
         [\<lparr>id' = 1, upload_url = [], html_url = [], tag_name = ''v1'',
           body = ''notes'' @ [CHR 0x0A] @ ''notes'', target_commitish = [],
           hosted_owner = Some ''o'', hosted_repo = Some ''r'',
           hosted_name = ''v1'', hosted_draft = False, hosted_prerelease = False\<rparr>]
   \<and> release (muted quiet) (GitHubReleaser (muted quiet) github_service) v1_config []
       = Some (Inr \<lparr>id' = 1, upload_url = [], html_url = [], tag_name = ''v1'',
                     body = ''notes'', target_commitish = []\<rparr>,
               [\<lparr>id' = 1, upload_url = [], html_url = [], tag_name = ''v1'',
                 body = ''notes'', target_commitish = [],
                 hosted_owner = Some ''o'', hosted_repo = Some ''r'',
                 hosted_name = ''v1'', hosted_draft = False, hosted_prerelease = False\<rparr>])
   \<and> one_per_tag
         [\<lparr>id' = 1, upload_url = [], html_url = [], tag_name = ''v1'',
           body = ''notes'', target_commitish = [],
           hosted_owner = Some ''o'', hosted_repo = Some ''r'',
           hosted_name = ''v1'', hosted_draft = False, hosted_prerelease = False\<rparr>]"
  using one_release_per_tag
          [of "[]" quiet "[v1_config, v1_config]" "[0, 1, 0, 1, 0, 1, 1, 1, 1]"]
        race_schedule first_release
  by (simp add: one_per_tag_def)

end
